theory Spec2Isabelle
  imports Complex_Main
begin

section \<open>Python numerics\<close>

text \<open>
  The scanner computes with Python floats and unbounded integers. Integers are modelled
  as \<open>int\<close>. Finite floats are idealised as \<open>real\<close>: every arithmetic operation and
  every \<open>math\<close> function is taken to be exact, so binary rounding error, infinities and
  NaN are outside the model. The concrete inputs evaluated below are chosen so that the
  float computation takes the same branches as the exact one.
\<close>

text \<open>\<open>int(x)\<close> on a float truncates toward zero.\<close>

definition py_int :: "real \<Rightarrow> int" where
  "py_int x = (if 0 \<le> x then \<lfloor>x\<rfloor> else \<lceil>x\<rceil>)"

text \<open>\<open>round(x, ndigits)\<close>: nearest multiple of \<open>10 ^ -ndigits\<close>, ties to even.\<close>

definition py_round :: "real \<Rightarrow> nat \<Rightarrow> real" where
  "py_round x ndigits =
     (let y = x * 10 ^ ndigits;
          f = \<lfloor>y\<rfloor>;
          d = y - of_int f
      in of_int (if d < 1 / 2 then f
                 else if 1 / 2 < d then f + 1
                 else if even f then f else f + 1) / 10 ^ ndigits)"

text \<open>\<open>math.radians\<close> and \<open>math.atan2\<close>.\<close>

definition radians :: "real \<Rightarrow> real" where
  "radians x = x * pi / 180"

definition atan2 :: "real \<Rightarrow> real \<Rightarrow> real" where
  "atan2 y x =
     (if 0 < x then arctan (y / x)
      else if x < 0 then (if 0 \<le> y then arctan (y / x) + pi else arctan (y / x) - pi)
      else if 0 < y then pi / 2
      else if y < 0 then - (pi / 2)
      else 0)"

text \<open>\<open>range(n)\<close> and \<open>range(n - 1, -1, -1)\<close>.\<close>

definition py_range :: "int \<Rightarrow> int list" where
  "py_range n = [0..n - 1]"

definition py_range_down :: "int \<Rightarrow> int list" where
  "py_range_down n = rev [0..n - 1]"

section \<open>GridCalculator\<close>

text \<open>
  An f-string is kept as the sequence of its literal pieces and formatted arguments, so
  that no decimal rendering of a float has to be fixed.
\<close>

datatype fpiece = Lit string | FloatArg real | IntArg int

type_synonym fstring = "fpiece list"

text \<open>
  One dictionary of \<open>grid_points\<close>. The keys \<open>id\<close>, \<open>lat\<close>, \<open>lon\<close>, \<open>row\<close>, \<open>col\<close> carry the
  prefix \<open>gp_\<close>.
\<close>

record grid_point =
  gp_id :: int
  gp_lat :: real
  gp_lon :: real
  gp_row :: int
  gp_col :: int
  distance_from_center :: real
  google_maps_url :: fstring
  google_embed_url :: fstring
  openstreetmap_url :: fstring
  bing_maps_url :: fstring

definition viewport_degrees :: "int \<rightharpoonup> real" where
  "viewport_degrees =
     [15 \<mapsto> 0.02, 16 \<mapsto> 0.01, 17 \<mapsto> 0.005, 18 \<mapsto> 0.0025, 19 \<mapsto> 0.00125]"

definition distance_miles :: "real \<Rightarrow> real \<Rightarrow> real \<Rightarrow> real \<Rightarrow> real" where
  "distance_miles lat1 lon1 lat2 lon2 =
     (let R = 3959;
          dlat = radians (lat2 - lat1);
          dlon = radians (lon2 - lon1);
          a = sin (dlat / 2) * sin (dlat / 2) +
              cos (radians lat1) * cos (radians lat2) *
              sin (dlon / 2) * sin (dlon / 2);
          c = 2 * atan2 (sqrt a) (sqrt (1 - a))
      in R * c)"

text \<open>The dictionary appended for a retained candidate.\<close>

definition make_point :: "int \<Rightarrow> real \<Rightarrow> real \<Rightarrow> int \<Rightarrow> int \<Rightarrow> real \<Rightarrow> int \<Rightarrow> grid_point" where
  "make_point point_id lat lon row col distance zoom_level =
     \<lparr> gp_id = point_id,
       gp_lat = py_round lat 6,
       gp_lon = py_round lon 6,
       gp_row = row,
       gp_col = col,
       distance_from_center = py_round distance 2,
       google_maps_url =
         [Lit ''https://maps.google.com/@'', FloatArg lat, Lit '','', FloatArg lon,
          Lit '','', IntArg zoom_level, Lit ''z''],
       google_embed_url =
         [Lit ''https://www.google.com/maps/embed?pb=!1m14!1m12!1m3!1d3000!2d'',
          FloatArg lon, Lit ''!3d'', FloatArg lat,
          Lit ''!2m3!1f0!2f0!3f0!3m2!1i1024!2i768!4f13.1!5e0!3m2!1sen!2sus!4v1''],
       openstreetmap_url =
         [Lit ''https://www.openstreetmap.org/?mlat='', FloatArg lat, Lit ''&mlon='',
          FloatArg lon, Lit ''&zoom='', IntArg zoom_level],
       bing_maps_url =
         [Lit ''https://www.bing.com/maps?cp='', FloatArg lat, Lit ''~'', FloatArg lon,
          Lit ''&lvl='', IntArg zoom_level] \<rparr>"

text \<open>
  The inner loop \<open>for col in cols\<close>; the loop state is the pair
  \<open>(grid_points, point_id)\<close>.
\<close>

fun scan_cols ::
  "real \<Rightarrow> real \<Rightarrow> real \<Rightarrow> int \<Rightarrow> real \<Rightarrow> real \<Rightarrow> int \<Rightarrow> real \<Rightarrow> int list \<Rightarrow>
   grid_point list \<times> int \<Rightarrow> grid_point list \<times> int" where
  "scan_cols center_lat center_lon radius_miles zoom_level radius_deg step_size row lat []
     (grid_points, point_id) = (grid_points, point_id)"
| "scan_cols center_lat center_lon radius_miles zoom_level radius_deg step_size row lat (col # cols)
     (grid_points, point_id) =
     (let lon = center_lon - radius_deg + (of_int col * step_size);
          distance = distance_miles center_lat center_lon lat lon
      in if distance \<le> radius_miles
         then scan_cols center_lat center_lon radius_miles zoom_level radius_deg step_size row lat cols
                (grid_points @ [make_point point_id lat lon row col distance zoom_level],
                 point_id + 1)
         else scan_cols center_lat center_lon radius_miles zoom_level radius_deg step_size row lat cols
                (grid_points, point_id))"

text \<open>The outer loop \<open>for row in range(grid_size)\<close>.\<close>

fun scan_rows ::
  "real \<Rightarrow> real \<Rightarrow> real \<Rightarrow> int \<Rightarrow> real \<Rightarrow> real \<Rightarrow> int \<Rightarrow> int list \<Rightarrow>
   grid_point list \<times> int \<Rightarrow> grid_point list \<times> int" where
  "scan_rows center_lat center_lon radius_miles zoom_level radius_deg step_size grid_size []
     st = st"
| "scan_rows center_lat center_lon radius_miles zoom_level radius_deg step_size grid_size (row # rows)
     st =
     (let lat = center_lat - radius_deg + (of_int row * step_size);
          cols = (if row mod 2 = 0 then py_range grid_size else py_range_down grid_size)
      in scan_rows center_lat center_lon radius_miles zoom_level radius_deg step_size grid_size rows
           (scan_cols center_lat center_lon radius_miles zoom_level radius_deg step_size row lat
              cols st))"

text \<open>
  The locals \<open>view_size\<close>, \<open>radius_deg\<close>, \<open>step_size\<close> and \<open>grid_size\<close> of
  \<open>calculate_scan_grid\<close>, as functions of its arguments.
\<close>

definition view_size :: "int \<Rightarrow> real" where
  "view_size zoom_level =
     (case viewport_degrees zoom_level of Some v \<Rightarrow> v | None \<Rightarrow> 0.0025)"

definition radius_deg :: "real \<Rightarrow> real" where
  "radius_deg radius_miles = radius_miles / 69.0"

definition step_size :: "int \<Rightarrow> real" where
  "step_size zoom_level = view_size zoom_level * 0.8"

definition grid_size :: "real \<Rightarrow> int \<Rightarrow> int" where
  "grid_size radius_miles zoom_level =
     py_int (2 * radius_deg radius_miles / step_size zoom_level) + 1"

definition calculate_scan_grid :: "real \<Rightarrow> real \<Rightarrow> real \<Rightarrow> int \<Rightarrow> grid_point list" where
  "calculate_scan_grid center_lat center_lon radius_miles zoom_level =
     fst (scan_rows center_lat center_lon radius_miles zoom_level
            (radius_deg radius_miles) (step_size zoom_level)
            (grid_size radius_miles zoom_level)
            (py_range (grid_size radius_miles zoom_level)) ([], 0))"

section \<open>Scan sessions\<close>

text \<open>
  A JSON value of a request body. Python reads a JSON number without fraction or exponent
  as an \<open>int\<close> and any other number as a \<open>float\<close>.
\<close>

datatype json =
  JNull
| JBool bool
| JInt int
| JFloat real
| JString string
| JArray "json list"
| JObject "(string \<times> json) list"

text \<open>
  A Python number, as \<open>current_index\<close> can hold one: an \<open>int\<close>, or a \<open>float\<close> once a float
  index has been stored. Comparison between the two is by value. \<open>min(a, b)\<close> returns
  \<open>b\<close> only when \<open>b < a\<close> and \<open>max(a, b)\<close> returns \<open>b\<close> only when \<open>b > a\<close>, so on a tie
  the first argument, with its type, is the result.
\<close>

datatype py_num = PInt int | PFloat real

fun py_val :: "py_num \<Rightarrow> real" where
  "py_val (PInt i) = of_int i"
| "py_val (PFloat x) = x"

fun py_add :: "py_num \<Rightarrow> py_num \<Rightarrow> py_num" where
  "py_add (PInt a) (PInt b) = PInt (a + b)"
| "py_add a b = PFloat (py_val a + py_val b)"

fun py_sub :: "py_num \<Rightarrow> py_num \<Rightarrow> py_num" where
  "py_sub (PInt a) (PInt b) = PInt (a - b)"
| "py_sub a b = PFloat (py_val a - py_val b)"

definition py_min :: "py_num \<Rightarrow> py_num \<Rightarrow> py_num" where
  "py_min a b = (if py_val b < py_val a then b else a)"

definition py_max :: "py_num \<Rightarrow> py_num \<Rightarrow> py_num" where
  "py_max a b = (if py_val a < py_val b then b else a)"

text \<open>
  Exceptions that escape a handler (the framework answers with a server error); a
  handler that raises has mutated nothing before the raise.
\<close>

datatype py_error = IndexError | ZeroDivisionError | TypeError

text \<open>
  A JSON value as an operand of \<open>min\<close> against an \<open>int\<close>: a number is itself, a boolean is
  the integer 1 or 0 that it is in Python, and \<open>None\<close>, a string, a list or a dictionary
  cannot be ordered against an \<open>int\<close>.
\<close>

fun json_number :: "json \<Rightarrow> py_error + py_num" where
  "json_number (JInt i) = Inr (PInt i)"
| "json_number (JFloat x) = Inr (PFloat x)"
| "json_number (JBool b) = Inr (PInt (if b then 1 else 0))"
| "json_number JNull = Inl TypeError"
| "json_number (JString v) = Inl TypeError"
| "json_number (JArray vs) = Inl TypeError"
| "json_number (JObject kvs) = Inl TypeError"

text \<open>
  List subscription \<open>xs[i]\<close>: a negative index counts from the end, and a \<open>float\<close> is no
  index at all.
\<close>

fun py_index :: "'a list \<Rightarrow> py_num \<Rightarrow> py_error + 'a" where
  "py_index xs (PInt i) =
     (if 0 \<le> i \<and> i < int (length xs) then Inr (xs ! nat i)
      else if i < 0 \<and> 0 \<le> int (length xs) + i then Inr (xs ! nat (int (length xs) + i))
      else Inl IndexError)"
| "py_index xs (PFloat x) = Inl TypeError"

text \<open>
  A bookmark dictionary; the keys \<open>id\<close>, \<open>lat\<close>, \<open>lon\<close>, \<open>note\<close> and \<open>google_maps_url\<close>
  carry the prefix \<open>bm_\<close>.
\<close>

record bookmark =
  bm_id :: string
  bm_lat :: real
  bm_lon :: real
  bm_note :: string
  grid_index :: py_num
  timestamp :: string
  bm_google_maps_url :: fstring
  street_view_url :: fstring

text \<open>One value of the dictionary \<open>scanning_sessions\<close>; its key \<open>id\<close> is \<open>session_id\<close>.\<close>

record scan_session =
  session_id :: string
  center_lat :: real
  center_lon :: real
  radius_miles :: real
  zoom_level :: int
  speed_seconds :: real
  grid_points :: "grid_point list"
  current_index :: py_num
  is_running :: bool
  is_paused :: bool
  bookmarks :: "bookmark list"
  created_at :: string
  last_activity :: string

type_synonym sessions = "string \<rightharpoonup> scan_session"

text \<open>
  The guard \<open>if not session_id or session_id not in scanning_sessions\<close> on the
  identifier read from the browser cookie.
\<close>

definition lookup_session :: "sessions \<Rightarrow> string option \<Rightarrow> scan_session option" where
  "lookup_session scanning_sessions cookie =
     (case cookie of
        None \<Rightarrow> None
      | Some sid \<Rightarrow> if sid = [] then None else scanning_sessions sid)"

subsection \<open>\<open>setup_scan\<close>\<close>

text \<open>
  The request body after the conversions \<open>float(...)\<close> and \<open>int(...)\<close>; \<open>None\<close> stands
  for a field that is missing or whose conversion raises. The fresh UUID and the two
  readings of the clock are arguments.
\<close>

record setup_data =
  data_center_lat :: "real option"
  data_center_lon :: "real option"
  data_radius_miles :: "real option"
  data_zoom_level :: "int option"
  data_speed_seconds :: "real option"

datatype setup_response =
  SetupSuccess string int real
| SetupFailure

definition setup_scan ::
  "sessions \<Rightarrow> string option \<Rightarrow> setup_data \<Rightarrow> string \<Rightarrow> string \<Rightarrow> string \<Rightarrow>
   setup_response \<times> sessions \<times> string option" where
  "setup_scan scanning_sessions cookie data uuid now1 now2 =
     (case (data_center_lat data, data_center_lon data, data_radius_miles data,
            data_zoom_level data, data_speed_seconds data) of
        (Some clat, Some clon, Some radius, Some zoom, Some speed) \<Rightarrow>
          (let pts = calculate_scan_grid clat clon radius zoom
           in (SetupSuccess uuid (int (length pts)) (of_int (int (length pts)) * speed / 60),
               scanning_sessions(uuid \<mapsto>
                 \<lparr> session_id = uuid,
                   center_lat = clat,
                   center_lon = clon,
                   radius_miles = radius,
                   zoom_level = zoom,
                   speed_seconds = speed,
                   grid_points = pts,
                   current_index = PInt 0,
                   is_running = False,
                   is_paused = False,
                   bookmarks = [],
                   created_at = now1,
                   last_activity = now2 \<rparr>),
               Some uuid))
      | _ \<Rightarrow> (SetupFailure, scanning_sessions, cookie))"

subsection \<open>\<open>get_current_location\<close>\<close>

datatype location_response =
  LocationNoSession
| LocationCurrent grid_point py_num int real bool bool
| LocationCompleted

definition get_current_location ::
  "sessions \<Rightarrow> string option \<Rightarrow> (py_error + location_response) \<times> sessions" where
  "get_current_location scanning_sessions cookie =
     (case lookup_session scanning_sessions cookie of
        None \<Rightarrow> (Inr LocationNoSession, scanning_sessions)
      | Some scan_session \<Rightarrow>
          if py_val (current_index scan_session) < of_int (int (length (grid_points scan_session)))
          then (case py_index (grid_points scan_session) (current_index scan_session) of
                  Inl e \<Rightarrow> (Inl e, scanning_sessions)
                | Inr current_point \<Rightarrow>
                    (Inr (LocationCurrent current_point (current_index scan_session)
                            (int (length (grid_points scan_session)))
                            (py_round (py_val (current_index scan_session) /
                                       of_int (int (length (grid_points scan_session))) * 100) 1)
                            (is_running scan_session) (is_paused scan_session)),
                     scanning_sessions))
          else (Inr LocationCompleted, scanning_sessions))"

subsection \<open>\<open>control_scan\<close>\<close>

text \<open>
  The request body, a JSON object: the value under \<open>action\<close>, and the value under \<open>index\<close>
  when the object has that key, whatever JSON value it is. An action that is absent or
  is no string equals none of the seven names, as a string other than these does, and
  is not modelled apart.
\<close>

record control_request =
  action :: string
  index :: "json option"

datatype control_response = ControlNoSession | ControlSuccess

text \<open>
  \<open>request.json.get('index', 0)\<close>, as the first argument of \<open>min\<close> against
  \<open>len(grid_points) - 1\<close>.
\<close>

definition jump_index :: "json option \<Rightarrow> py_error + py_num" where
  "jump_index i = (case i of None \<Rightarrow> Inr (PInt 0) | Some v \<Rightarrow> json_number v)"

text \<open>
  The chain of branches on \<open>action\<close>. Only the \<open>jump\<close> branch reads the index, and \<open>min\<close>
  raises there when the index is no number.
\<close>

definition apply_action :: "control_request \<Rightarrow> scan_session \<Rightarrow> py_error + scan_session" where
  "apply_action req scan_session =
     (if action req = ''start'' then Inr (scan_session\<lparr>is_running := True, is_paused := False\<rparr>)
      else if action req = ''pause'' then Inr (scan_session\<lparr>is_paused := True\<rparr>)
      else if action req = ''resume'' then Inr (scan_session\<lparr>is_paused := False\<rparr>)
      else if action req = ''stop'' then
        Inr (scan_session\<lparr>is_running := False, is_paused := False\<rparr>)
      else if action req = ''next'' then
        Inr (scan_session\<lparr>current_index :=
          py_min (py_add (current_index scan_session) (PInt 1))
            (PInt (int (length (grid_points scan_session)) - 1))\<rparr>)
      else if action req = ''previous'' then
        Inr (scan_session\<lparr>current_index :=
          py_max (py_sub (current_index scan_session) (PInt 1)) (PInt 0)\<rparr>)
      else if action req = ''jump'' then
        (case jump_index (index req) of
           Inl e \<Rightarrow> Inl e
         | Inr idx \<Rightarrow>
             Inr (scan_session\<lparr>current_index :=
               py_max (PInt 0)
                 (py_min idx (PInt (int (length (grid_points scan_session)) - 1)))\<rparr>))
      else Inr scan_session)"

text \<open>
  The handler: an exception raised in a branch leaves the handler before
  \<open>last_activity\<close> is set and before the success response is built.
\<close>

definition control_scan ::
  "sessions \<Rightarrow> string option \<Rightarrow> control_request \<Rightarrow> string \<Rightarrow>
   (py_error + control_response) \<times> sessions" where
  "control_scan scanning_sessions cookie req now =
     (case lookup_session scanning_sessions cookie of
        None \<Rightarrow> (Inr ControlNoSession, scanning_sessions)
      | Some scan_session \<Rightarrow>
          (case apply_action req scan_session of
             Inl e \<Rightarrow> (Inl e, scanning_sessions)
           | Inr scan_session' \<Rightarrow>
               (Inr ControlSuccess,
                scanning_sessions(the cookie \<mapsto> scan_session'\<lparr>last_activity := now\<rparr>))))"

subsection \<open>\<open>add_bookmark\<close>\<close>

text \<open>
  The note is the value under \<open>note\<close> when the request has that key. The fresh UUID and
  the two readings of the clock are arguments.
\<close>

datatype bookmark_response =
  BookmarkNoSession
| BookmarkSuccess bookmark
| BookmarkInvalidLocation

text \<open>The bookmark dictionary built for the point under the cursor.\<close>

definition make_bookmark ::
  "grid_point \<Rightarrow> py_num \<Rightarrow> string option \<Rightarrow> string \<Rightarrow> string \<Rightarrow> bookmark" where
  "make_bookmark current_point cur_index req_note uuid now =
     \<lparr> bm_id = uuid,
       bm_lat = gp_lat current_point,
       bm_lon = gp_lon current_point,
       bm_note = (case req_note of None \<Rightarrow> ''Potential storage facility'' | Some n \<Rightarrow> n),
       grid_index = cur_index,
       timestamp = now,
       bm_google_maps_url = google_maps_url current_point,
       street_view_url =
         [Lit ''https://maps.google.com/@'', FloatArg (gp_lat current_point), Lit '','',
          FloatArg (gp_lon current_point), Lit '',3a,75y,0h,90t/data=!3m7!1e1''] \<rparr>"

definition add_bookmark ::
  "sessions \<Rightarrow> string option \<Rightarrow> string option \<Rightarrow> string \<Rightarrow> string \<Rightarrow> string \<Rightarrow>
   (py_error + bookmark_response) \<times> sessions" where
  "add_bookmark scanning_sessions cookie req_note uuid now1 now2 =
     (case lookup_session scanning_sessions cookie of
        None \<Rightarrow> (Inr BookmarkNoSession, scanning_sessions)
      | Some scan_session \<Rightarrow>
          if py_val (current_index scan_session) < of_int (int (length (grid_points scan_session)))
          then (case py_index (grid_points scan_session) (current_index scan_session) of
                  Inl e \<Rightarrow> (Inl e, scanning_sessions)
                | Inr current_point \<Rightarrow>
                    (let bm = make_bookmark current_point (current_index scan_session)
                                req_note uuid now1
                     in (Inr (BookmarkSuccess bm),
                         scanning_sessions(the cookie \<mapsto>
                           scan_session\<lparr>bookmarks := bookmarks scan_session @ [bm],
                                        last_activity := now2\<rparr>))))
          else (Inr BookmarkInvalidLocation, scanning_sessions))"

subsection \<open>\<open>get_bookmarks\<close> and \<open>export_bookmarks\<close>\<close>

datatype bookmarks_response =
  BookmarksNoSession
| BookmarksSuccess "bookmark list"

definition get_bookmarks ::
  "sessions \<Rightarrow> string option \<Rightarrow> bookmarks_response \<times> sessions" where
  "get_bookmarks scanning_sessions cookie =
     (case lookup_session scanning_sessions cookie of
        None \<Rightarrow> (BookmarksNoSession, scanning_sessions)
      | Some scan_session \<Rightarrow> (BookmarksSuccess (bookmarks scan_session), scanning_sessions))"

text \<open>The exported document; the keys of \<open>scan_info\<close> carry the prefix \<open>info_\<close>.\<close>

record scan_info =
  info_center_lat :: real
  info_center_lon :: real
  info_radius_miles :: real
  info_zoom_level :: int
  total_points_scanned :: py_num
  scan_date :: string

record summary =
  total_bookmarks :: int
  areas_scanned :: py_num
  completion_percentage :: real

record export_data =
  export_scan_info :: scan_info
  export_bookmarks_list :: "bookmark list"
  export_summary :: summary

datatype export_response =
  ExportNoSession
| ExportData export_data

text \<open>Division \<open>a / b\<close> of a number by an integer, with a float result.\<close>

definition py_truediv :: "py_num \<Rightarrow> int \<Rightarrow> py_error + real" where
  "py_truediv a b = (if b = 0 then Inl ZeroDivisionError else Inr (py_val a / of_int b))"

definition export_bookmarks ::
  "sessions \<Rightarrow> string option \<Rightarrow> (py_error + export_response) \<times> sessions" where
  "export_bookmarks scanning_sessions cookie =
     (case lookup_session scanning_sessions cookie of
        None \<Rightarrow> (Inr ExportNoSession, scanning_sessions)
      | Some scan_session \<Rightarrow>
          (case py_truediv (current_index scan_session)
                  (int (length (grid_points scan_session))) of
             Inl e \<Rightarrow> (Inl e, scanning_sessions)
           | Inr q \<Rightarrow>
               (Inr (ExportData
                  \<lparr> export_scan_info =
                      \<lparr> info_center_lat = center_lat scan_session,
                        info_center_lon = center_lon scan_session,
                        info_radius_miles = radius_miles scan_session,
                        info_zoom_level = zoom_level scan_session,
                        total_points_scanned = current_index scan_session,
                        scan_date = created_at scan_session \<rparr>,
                    export_bookmarks_list = bookmarks scan_session,
                    export_summary =
                      \<lparr> total_bookmarks = int (length (bookmarks scan_session)),
                        areas_scanned = current_index scan_session,
                        completion_percentage = q * 100 \<rparr> \<rparr>),
                scanning_sessions)))"

subsection \<open>Sequences of requests\<close>

text \<open>
  The requests that one browser, holding its cookie, can send after \<open>setup_scan\<close>, with the
  clock readings and fresh UUIDs that the server draws while serving them; each is
  dispatched to its handler.
\<close>

datatype request =
  GetCurrentLocation
| ControlScan control_request string
| AddBookmark "string option" string string string
| GetBookmarks
| ExportBookmarks

fun handle_request :: "string option \<Rightarrow> sessions \<Rightarrow> request \<Rightarrow> sessions" where
  "handle_request cookie scanning_sessions GetCurrentLocation =
     snd (get_current_location scanning_sessions cookie)"
| "handle_request cookie scanning_sessions (ControlScan req now) =
     snd (control_scan scanning_sessions cookie req now)"
| "handle_request cookie scanning_sessions (AddBookmark req_note uuid now1 now2) =
     snd (add_bookmark scanning_sessions cookie req_note uuid now1 now2)"
| "handle_request cookie scanning_sessions GetBookmarks =
     snd (get_bookmarks scanning_sessions cookie)"
| "handle_request cookie scanning_sessions ExportBookmarks =
     snd (export_bookmarks scanning_sessions cookie)"

definition handle_requests :: "string option \<Rightarrow> sessions \<Rightarrow> request list \<Rightarrow> sessions" where
  "handle_requests cookie scanning_sessions reqs =
     foldl (handle_request cookie) scanning_sessions reqs"

text \<open>The cursor of a session lies between the first and the last of its grid points.\<close>

definition cursor_inside :: "scan_session \<Rightarrow> bool" where
  "cursor_inside s \<longleftrightarrow>
     0 \<le> py_val (current_index s) \<and>
     py_val (current_index s) \<le> of_int (int (length (grid_points s)) - 1)"

text \<open>A request that carries no float index.\<close>

fun integer_request :: "request \<Rightarrow> bool" where
  "integer_request (ControlScan req now) =
     (case index req of Some (JFloat x) \<Rightarrow> False | _ \<Rightarrow> True)"
| "integer_request req = True"

text \<open>A session and a setup request used in the worked examples.\<close>

definition example_session :: "grid_point list \<Rightarrow> int \<Rightarrow> scan_session" where
  "example_session pts i =
     \<lparr> session_id = ''s1'', center_lat = 0, center_lon = 0, radius_miles = 1, zoom_level = 18,
       speed_seconds = 3, grid_points = pts, current_index = PInt i, is_running = False,
       is_paused = False, bookmarks = [], created_at = ''t0'', last_activity = ''t0'' \<rparr>"

definition example_data :: "real \<Rightarrow> setup_data" where
  "example_data r =
     \<lparr> data_center_lat = Some 0, data_center_lon = Some 0, data_radius_miles = Some r,
       data_zoom_level = Some 18, data_speed_seconds = Some 3 \<rparr>"

section \<open>The grid as a list of retained candidates\<close>

text \<open>
  The two loops thread the list built so far and the next identifier through every
  iteration. The functions \<open>col_points\<close> and \<open>row_points\<close> below produce the points that
  the loops append, from the identifier at which they start; the loops are shown equal
  to them, and the properties of the grid are proved on these.
\<close>

text \<open>
  The latitude of a row and the longitude of a column of the lattice: the values of the
  locals \<open>lat\<close> and \<open>lon\<close> of \<open>calculate_scan_grid\<close>.
\<close>

definition row_lat :: "real \<Rightarrow> real \<Rightarrow> int \<Rightarrow> int \<Rightarrow> real" where
  "row_lat clat r z row = clat - radius_deg r + of_int row * step_size z"

definition col_lon :: "real \<Rightarrow> real \<Rightarrow> int \<Rightarrow> int \<Rightarrow> real" where
  "col_lon clon r z col = clon - radius_deg r + of_int col * step_size z"

fun col_points ::
  "real \<Rightarrow> real \<Rightarrow> real \<Rightarrow> int \<Rightarrow> real \<Rightarrow> real \<Rightarrow> int \<Rightarrow> real \<Rightarrow> int \<Rightarrow> int list \<Rightarrow> grid_point list" where
  "col_points clat clon r z rd st row lat pid [] = []"
| "col_points clat clon r z rd st row lat pid (col # cols) =
     (if distance_miles clat clon lat (clon - rd + of_int col * st) \<le> r
      then make_point pid lat (clon - rd + of_int col * st) row col
             (distance_miles clat clon lat (clon - rd + of_int col * st)) z
           # col_points clat clon r z rd st row lat (pid + 1) cols
      else col_points clat clon r z rd st row lat pid cols)"

fun row_points ::
  "real \<Rightarrow> real \<Rightarrow> real \<Rightarrow> int \<Rightarrow> real \<Rightarrow> real \<Rightarrow> int \<Rightarrow> int \<Rightarrow> int list \<Rightarrow> grid_point list" where
  "row_points clat clon r z rd st n pid [] = []"
| "row_points clat clon r z rd st n pid (row # rows) =
     (let ps = col_points clat clon r z rd st row (clat - rd + of_int row * st) pid
                 (if row mod 2 = 0 then py_range n else py_range_down n)
      in ps @ row_points clat clon r z rd st n (pid + int (length ps)) rows)"


text \<open>The order in which the serpentine walk meets two cells of the lattice.\<close>

definition serpentine_before :: "grid_point \<Rightarrow> grid_point \<Rightarrow> bool" where
  "serpentine_before p q \<longleftrightarrow>
     gp_row p < gp_row q \<or>
     gp_row p = gp_row q \<and>
       (if gp_row p mod 2 = 0 then gp_col p < gp_col q else gp_col q < gp_col p)"

section \<open>Properties of the grid generator\<close>

lemma scan_cols_col_points:
  "scan_cols clat clon r z rd st row lat cols (gps, pid) =
     (gps @ col_points clat clon r z rd st row lat pid cols,
      pid + int (length (col_points clat clon r z rd st row lat pid cols)))"
  by (induction cols arbitrary: gps pid) (simp_all add: Let_def)

lemma scan_rows_row_points:
  "scan_rows clat clon r z rd st n rows (gps, pid) =
     (gps @ row_points clat clon r z rd st n pid rows,
      pid + int (length (row_points clat clon r z rd st n pid rows)))"
  by (induction rows arbitrary: gps pid) (simp_all add: Let_def scan_cols_col_points)

lemma calculate_scan_grid_row_points:
  "calculate_scan_grid clat clon r z =
     row_points clat clon r z (radius_deg r) (step_size z) (grid_size r z) 0
       (py_range (grid_size r z))"
  by (simp add: calculate_scan_grid_def scan_rows_row_points)

lemma col_points_ids:
  "map gp_id (col_points clat clon r z rd st row lat pid cols) =
     map (\<lambda>i. pid + int i) [0..<length (col_points clat clon r z rd st row lat pid cols)]"
proof (induction cols arbitrary: pid)
  case Nil
  show ?case by simp
next
  case (Cons col cols)
  show ?case
  proof (cases "distance_miles clat clon lat (clon - rd + of_int col * st) \<le> r")
    case True
    have "map (\<lambda>i. pid + int i) [0..<Suc k] = pid # map (\<lambda>i. pid + 1 + int i) [0..<k]" for k
      by (simp add: upt_rec [of 0] map_Suc_upt [symmetric] del: upt_Suc)
    with True Cons [of "pid + 1"] show ?thesis
      by (simp add: make_point_def)
  next
    case False
    with Cons [of pid] show ?thesis by simp
  qed
qed

lemma upt_split_shift:
  "map (\<lambda>i. pid + int i) [0..<a + b] =
     map (\<lambda>i. pid + int i) [0..<a] @ map (\<lambda>i. pid + int a + int i) [0..<b]"
proof -
  have "[0..<a + b] = [0..<a] @ [a..<a + b]"
    by (rule upt_add_eq_append) simp
  moreover have "[a..<a + b] = map (\<lambda>i. i + a) [0..<b]"
    by (simp add: map_add_upt add.commute)
  ultimately show ?thesis
    by (simp add: comp_def add.assoc add.commute)
qed

lemma row_points_ids:
  "map gp_id (row_points clat clon r z rd st n pid rows) =
     map (\<lambda>i. pid + int i) [0..<length (row_points clat clon r z rd st n pid rows)]"
proof (induction rows arbitrary: pid)
  case Nil
  show ?case by simp
next
  case (Cons row rows)
  define ps where "ps = col_points clat clon r z rd st row (clat - rd + of_int row * st) pid
                 (if row mod 2 = 0 then py_range n else py_range_down n)"
  define qs where "qs = row_points clat clon r z rd st n (pid + int (length ps)) rows"
  have eq: "row_points clat clon r z rd st n pid (row # rows) = ps @ qs"
    by (simp add: Let_def ps_def qs_def)
  have p: "map gp_id ps = map (\<lambda>i. pid + int i) [0..<length ps]"
    unfolding ps_def by (rule col_points_ids)
  have q: "map gp_id qs = map (\<lambda>i. pid + int (length ps) + int i) [0..<length qs]"
    unfolding qs_def by (rule Cons)
  show ?case
    unfolding eq by (simp only: map_append length_append upt_split_shift p q)
qed


lemma set_py_range: "set (py_range n) = {0..n - 1}"
  by (simp add: py_range_def)

lemma set_py_range_down: "set (py_range_down n) = {0..n - 1}"
  by (simp add: py_range_down_def)

lemma col_points_member:
  "p \<in> set (col_points clat clon r z rd st row lat pid cols) \<Longrightarrow>
   \<exists>col\<in>set cols.
     distance_miles clat clon lat (clon - rd + of_int col * st) \<le> r \<and>
     p = make_point (gp_id p) lat (clon - rd + of_int col * st) row col
           (distance_miles clat clon lat (clon - rd + of_int col * st)) z"
proof (induction cols arbitrary: pid)
  case Nil
  then show ?case by simp
next
  case (Cons col cols)
  show ?case
  proof (cases "distance_miles clat clon lat (clon - rd + of_int col * st) \<le> r")
    case True
    with Cons.prems have "p = make_point pid lat (clon - rd + of_int col * st) row col
           (distance_miles clat clon lat (clon - rd + of_int col * st)) z
        \<or> p \<in> set (col_points clat clon r z rd st row lat (pid + 1) cols)"
      by simp
    then show ?thesis
    proof
      assume "p = make_point pid lat (clon - rd + of_int col * st) row col
           (distance_miles clat clon lat (clon - rd + of_int col * st)) z"
      with True show ?thesis by (simp add: make_point_def)
    next
      assume "p \<in> set (col_points clat clon r z rd st row lat (pid + 1) cols)"
      from Cons.IH [OF this] show ?thesis by auto
    qed
  next
    case False
    with Cons.prems have "p \<in> set (col_points clat clon r z rd st row lat pid cols)"
      by simp
    from Cons.IH [OF this] show ?thesis by auto
  qed
qed

lemma row_points_member:
  "p \<in> set (row_points clat clon r z rd st n pid rows) \<Longrightarrow>
   \<exists>row\<in>set rows. \<exists>col\<in>{0..n - 1}.
     distance_miles clat clon (clat - rd + of_int row * st) (clon - rd + of_int col * st) \<le> r \<and>
     p = make_point (gp_id p) (clat - rd + of_int row * st) (clon - rd + of_int col * st) row col
           (distance_miles clat clon (clat - rd + of_int row * st) (clon - rd + of_int col * st)) z"
proof (induction rows arbitrary: pid)
  case Nil
  then show ?case by simp
next
  case (Cons row rows)
  define ps where "ps = col_points clat clon r z rd st row (clat - rd + of_int row * st) pid
                 (if row mod 2 = 0 then py_range n else py_range_down n)"
  from Cons.prems have "p \<in> set ps \<or>
      p \<in> set (row_points clat clon r z rd st n (pid + int (length ps)) rows)"
    by (simp add: Let_def ps_def)
  then show ?case
  proof
    assume "p \<in> set ps"
    from col_points_member [OF this [unfolded ps_def]] show ?thesis
      by (auto simp: set_py_range set_py_range_down split: if_splits)
  next
    assume "p \<in> set (row_points clat clon r z rd st n (pid + int (length ps)) rows)"
    from Cons.IH [OF this] show ?thesis by auto
  qed
qed

lemma grid_member:
  assumes "p \<in> set (calculate_scan_grid clat clon r z)"
  shows "0 \<le> gp_row p \<and> gp_row p < grid_size r z \<and> 0 \<le> gp_col p \<and> gp_col p < grid_size r z \<and>
         distance_miles clat clon (row_lat clat r z (gp_row p)) (col_lon clon r z (gp_col p)) \<le> r \<and>
         p = make_point (gp_id p) (row_lat clat r z (gp_row p)) (col_lon clon r z (gp_col p))
               (gp_row p) (gp_col p)
               (distance_miles clat clon (row_lat clat r z (gp_row p)) (col_lon clon r z (gp_col p)))
               z"
proof -
  from assms obtain row col where
    rc: "row \<in> {0..grid_size r z - 1}" "col \<in> {0..grid_size r z - 1}" and
    d: "distance_miles clat clon (row_lat clat r z row) (col_lon clon r z col) \<le> r" and
    p: "p = make_point (gp_id p) (row_lat clat r z row) (col_lon clon r z col) row col
           (distance_miles clat clon (row_lat clat r z row) (col_lon clon r z col)) z"
    unfolding calculate_scan_grid_row_points row_lat_def col_lon_def
    using row_points_member [of p clat clon r z "radius_deg r" "step_size z" "grid_size r z" 0
            "py_range (grid_size r z)"]
    by (auto simp: set_py_range)
  have "gp_row p = row" "gp_col p = col"
    by (subst p, simp add: make_point_def)+
  with rc d p show ?thesis by auto
qed

lemma col_points_row:
  "p \<in> set (col_points clat clon r z rd st row lat pid cols) \<Longrightarrow> gp_row p = row"
  by (induction cols arbitrary: pid) (auto simp: make_point_def split: if_splits)

lemma col_points_cols:
  "map gp_col (col_points clat clon r z rd st row lat pid cols) =
     filter (\<lambda>col. distance_miles clat clon lat (clon - rd + of_int col * st) \<le> r) cols"
  by (induction cols arbitrary: pid) (simp_all add: make_point_def)

lemma sorted_wrt_upto_less: "sorted_wrt (<) [i..j]"
  using sorted_wrt_upto by (simp add: strict_sorted_iff)

lemma col_points_sorted_even:
  "sorted_wrt (\<lambda>p q. gp_col p < gp_col q)
     (col_points clat clon r z rd st row lat pid (py_range n))"
proof -
  have "sorted_wrt (<) (map gp_col (col_points clat clon r z rd st row lat pid (py_range n)))"
    unfolding col_points_cols py_range_def
    by (rule sorted_wrt_filter) (simp add: strict_sorted_iff)
  then show ?thesis by (simp add: sorted_wrt_map)
qed

lemma col_points_sorted_odd:
  "sorted_wrt (\<lambda>p q. gp_col q < gp_col p)
     (col_points clat clon r z rd st row lat pid (py_range_down n))"
proof -
  have "sorted_wrt (\<lambda>x y. y < x) (rev [0..n - 1])"
    by (simp add: sorted_wrt_rev strict_sorted_iff)
  then have "sorted_wrt (\<lambda>x y. y < x)
      (map gp_col (col_points clat clon r z rd st row lat pid (py_range_down n)))"
    unfolding col_points_cols py_range_down_def by (rule sorted_wrt_filter)
  then show ?thesis by (simp add: sorted_wrt_map)
qed

lemma col_points_serpentine:
  "sorted_wrt serpentine_before
     (col_points clat clon r z rd st row lat pid
        (if row mod 2 = 0 then py_range n else py_range_down n))"
proof (cases "row mod 2 = 0")
  case True
  define ps where "ps = col_points clat clon r z rd st row lat pid (py_range n)"
  have "sorted_wrt (\<lambda>p q. gp_col p < gp_col q) ps"
    unfolding ps_def by (rule col_points_sorted_even)
  moreover have "serpentine_before p q"
    if "p \<in> set ps" "q \<in> set ps" "gp_col p < gp_col q" for p q
    using col_points_row [OF that(1) [unfolded ps_def]]
          col_points_row [OF that(2) [unfolded ps_def]] True that(3)
    by (simp add: serpentine_before_def)
  ultimately have "sorted_wrt serpentine_before ps"
    by (rule sorted_wrt_mono_rel [rotated])
  with True show ?thesis by (simp add: ps_def)
next
  case False
  define ps where "ps = col_points clat clon r z rd st row lat pid (py_range_down n)"
  have "sorted_wrt (\<lambda>p q. gp_col q < gp_col p) ps"
    unfolding ps_def by (rule col_points_sorted_odd)
  moreover have "serpentine_before p q"
    if "p \<in> set ps" "q \<in> set ps" "gp_col q < gp_col p" for p q
    using col_points_row [OF that(1) [unfolded ps_def]]
          col_points_row [OF that(2) [unfolded ps_def]] False that(3)
    by (simp add: serpentine_before_def)
  ultimately have "sorted_wrt serpentine_before ps"
    by (rule sorted_wrt_mono_rel [rotated])
  with False show ?thesis by (simp add: ps_def)
qed

lemma row_points_rows:
  "p \<in> set (row_points clat clon r z rd st n pid rows) \<Longrightarrow> gp_row p \<in> set rows"
  by (induction rows arbitrary: pid) (auto simp: Let_def dest: col_points_row)

lemma row_points_serpentine:
  "sorted_wrt (<) rows \<Longrightarrow>
   sorted_wrt serpentine_before (row_points clat clon r z rd st n pid rows)"
proof (induction rows arbitrary: pid)
  case Nil
  show ?case by simp
next
  case (Cons row rows)
  define ps where "ps = col_points clat clon r z rd st row (clat - rd + of_int row * st) pid
                 (if row mod 2 = 0 then py_range n else py_range_down n)"
  define qs where "qs = row_points clat clon r z rd st n (pid + int (length ps)) rows"
  have eq: "row_points clat clon r z rd st n pid (row # rows) = ps @ qs"
    by (simp add: Let_def ps_def qs_def)
  have 1: "sorted_wrt serpentine_before ps"
    unfolding ps_def by (rule col_points_serpentine)
  from Cons.prems have rows: "sorted_wrt (<) rows" and lt: "\<forall>x\<in>set rows. row < x"
    by simp_all
  have 2: "sorted_wrt serpentine_before qs"
    unfolding qs_def using rows by (rule Cons.IH)
  have 3: "serpentine_before p q" if "p \<in> set ps" "q \<in> set qs" for p q
  proof -
    from that(1) have "gp_row p = row"
      unfolding ps_def by (rule col_points_row)
    moreover from that(2) have "gp_row q \<in> set rows"
      unfolding qs_def by (rule row_points_rows)
    ultimately show ?thesis
      using lt by (simp add: serpentine_before_def)
  qed
  show ?case
    unfolding eq by (simp add: sorted_wrt_append 1 2 3)
qed

lemma grid_serpentine:
  "sorted_wrt serpentine_before (calculate_scan_grid clat clon r z)"
  unfolding calculate_scan_grid_row_points py_range_def
  by (rule row_points_serpentine) (rule sorted_wrt_upto_less)

subsection \<open>Bounds on the haversine distance\<close>

lemma haversine_term_bounds:
  fixes u v y :: real
  defines "a \<equiv> sin ((v - u) / 2) * sin ((v - u) / 2) + cos u * cos v * sin y * sin y"
  shows "0 \<le> a" and "a \<le> 1"
proof -
  define x where "x = (v - u) / 2"
  define s where "s = sin y * sin y"
  define c where "c = cos u * cos v"
  have "sin y * sin y + cos y * cos y = 1"
    using sin_cos_squared_add [of y] by (simp add: power2_eq_square)
  moreover have "0 \<le> cos y * cos y" by simp
  ultimately have s1: "s \<le> 1" unfolding s_def by linarith
  have s0: "0 \<le> s" unfolding s_def by simp
  have prod: "2 * c = cos (v - u) + cos (u + v)"
    by (simp add: c_def cos_add cos_diff)
  have vu: "v - u = 2 * x" by (simp add: x_def)
  have d1: "cos (v - u) = 1 - 2 * (sin x * sin x)"
    unfolding vu using cos_double_sin [of x] by (simp add: power2_eq_square)
  have d2: "cos (v - u) = 2 * (cos x * cos x) - 1"
    unfolding vu using cos_double_cos [of x] by (simp add: power2_eq_square)
  have lo: "- (sin x * sin x) \<le> c"
    using cos_ge_minus_one [of "u + v"] d1 prod by linarith
  have hi: "c \<le> cos x * cos x"
    using cos_le_one [of "u + v"] d2 prod by linarith
  have a: "a = sin x * sin x + c * s"
    by (simp add: a_def x_def s_def c_def mult.assoc)
  have sx: "0 \<le> sin x * sin x" and cx: "0 \<le> cos x * cos x" by simp_all
  have unit: "sin x * sin x + cos x * cos x = 1"
    using sin_cos_squared_add [of x] by (simp add: power2_eq_square)
  have lo': "- (sin x * sin x) \<le> c * s"
  proof (cases "0 \<le> c")
    case True
    then have "0 \<le> c * s" using s0 by simp
    with sx show ?thesis by linarith
  next
    case False
    then have "c * 1 \<le> c * s"
      using s1 by (intro mult_left_mono_neg) simp_all
    with lo show ?thesis by simp
  qed
  have hi': "c * s \<le> cos x * cos x"
  proof (cases "0 \<le> c")
    case True
    then have "c * s \<le> c * 1"
      using s1 by (intro mult_left_mono) simp_all
    with hi show ?thesis by simp
  next
    case False
    then have "c * s \<le> 0" using s0 by (simp add: mult_le_0_iff)
    with cx show ?thesis by linarith
  qed
  from lo' show "0 \<le> a" by (simp add: a)
  from hi' unit show "a \<le> 1" unfolding a by linarith
qed

lemma atan2_nonneg: "0 \<le> y \<Longrightarrow> 0 \<le> atan2 y x"
proof -
  assume y: "0 \<le> y"
  consider "0 < x" | "x < 0" | "x = 0" by linarith
  then show ?thesis
  proof cases
    case 1
    with y show ?thesis by (simp add: atan2_def zero_le_arctan_iff)
  next
    case 2
    have "- (pi / 2) < arctan (y / x)" by (rule arctan_lbound)
    with pi_gt_zero have "0 \<le> arctan (y / x) + pi" by linarith
    with 2 y show ?thesis by (simp add: atan2_def)
  next
    case 3
    with y pi_gt_zero show ?thesis by (simp add: atan2_def)
  qed
qed

lemma distance_miles_nonneg: "0 \<le> distance_miles lat1 lon1 lat2 lon2"
proof -
  have "0 \<le> sin (radians (lat2 - lat1) / 2) * sin (radians (lat2 - lat1) / 2) +
      cos (radians lat1) * cos (radians lat2) * sin (radians (lon2 - lon1) / 2) *
      sin (radians (lon2 - lon1) / 2)"
    using haversine_term_bounds(1) [of "radians lat2" "radians lat1" "radians (lon2 - lon1) / 2"]
    by (simp add: radians_def diff_divide_distrib right_diff_distrib left_diff_distrib)
  then have "0 \<le> atan2 (sqrt (sin (radians (lat2 - lat1) / 2) * sin (radians (lat2 - lat1) / 2) +
      cos (radians lat1) * cos (radians lat2) * sin (radians (lon2 - lon1) / 2) *
      sin (radians (lon2 - lon1) / 2))) w" for w
    by (intro atan2_nonneg) simp
  then show ?thesis
    by (simp add: distance_miles_def Let_def)
qed

lemma distance_miles_self: "distance_miles lat1 lon1 lat1 lon1 = 0"
  by (simp add: distance_miles_def radians_def atan2_def Let_def)

lemma arctan_le_self: "0 \<le> t \<Longrightarrow> arctan t \<le> t"
proof -
  assume t: "0 \<le> t"
  have "(\<lambda>x. x - arctan x) 0 \<le> (\<lambda>x. x - arctan x) t"
  proof (rule DERIV_nonneg_imp_nondecreasing [OF t])
    fix x :: real
    have "((\<lambda>x. x - arctan x) has_real_derivative (1 - inverse (1 + x\<^sup>2))) (at x)"
      by (auto intro!: derivative_eq_intros)
    moreover have "inverse (1 + x\<^sup>2) \<le> 1"
      by (rule inverse_le_1_iff [THEN iffD2]) simp
    ultimately show "\<exists>y. ((\<lambda>x. x - arctan x) has_real_derivative y) (at x) \<and> 0 \<le> y"
      by (intro exI [of _ "1 - inverse (1 + x\<^sup>2)"]) simp
  qed
  then show ?thesis by simp
qed

lemma col_points_complete:
  assumes "col \<in> set cols"
    and "distance_miles clat clon lat (clon - rd + of_int col * st) \<le> r"
  shows "\<exists>p\<in>set (col_points clat clon r z rd st row lat pid cols). gp_row p = row \<and> gp_col p = col"
proof -
  from assms have "col \<in> set (map gp_col (col_points clat clon r z rd st row lat pid cols))"
    unfolding col_points_cols by simp
  then obtain p where "p \<in> set (col_points clat clon r z rd st row lat pid cols)" "gp_col p = col"
    by auto
  with col_points_row [OF this(1)] show ?thesis by blast
qed

lemma row_points_complete:
  assumes "row \<in> set rows" and "col \<in> {0..n - 1}"
    and "distance_miles clat clon (clat - rd + of_int row * st) (clon - rd + of_int col * st) \<le> r"
  shows "\<exists>p\<in>set (row_points clat clon r z rd st n pid rows). gp_row p = row \<and> gp_col p = col"
  using assms(1)
proof (induction rows arbitrary: pid)
  case Nil
  then show ?case by simp
next
  case (Cons row' rows)
  define ps where "ps = col_points clat clon r z rd st row' (clat - rd + of_int row' * st) pid
                 (if row' mod 2 = 0 then py_range n else py_range_down n)"
  have eq: "set (row_points clat clon r z rd st n pid (row' # rows)) =
      set ps \<union> set (row_points clat clon r z rd st n (pid + int (length ps)) rows)"
    by (simp add: Let_def ps_def)
  show ?case
  proof (cases "row = row'")
    case True
    have "col \<in> set (if row' mod 2 = 0 then py_range n else py_range_down n)"
      using assms(2) by (simp add: set_py_range set_py_range_down)
    from col_points_complete [OF this, of clat clon "clat - rd + of_int row' * st" rd st r z row' pid]
      assms(3) True
    have "\<exists>p\<in>set ps. gp_row p = row \<and> gp_col p = col"
      by (simp add: ps_def)
    then show ?thesis unfolding eq by blast
  next
    case False
    with Cons.prems have "row \<in> set rows" by simp
    from Cons.IH [OF this] show ?thesis unfolding eq by blast
  qed
qed

lemma grid_complete:
  assumes "0 \<le> row" "row < grid_size r z" "0 \<le> col" "col < grid_size r z"
    and "distance_miles clat clon (row_lat clat r z row) (col_lon clon r z col) \<le> r"
  shows "\<exists>p\<in>set (calculate_scan_grid clat clon r z). gp_row p = row \<and> gp_col p = col"
  unfolding calculate_scan_grid_row_points
  using assms
  by (intro row_points_complete) (simp_all add: set_py_range row_lat_def col_lon_def)

lemma grid_radius_zero:
  "calculate_scan_grid clat clon 0 z = [make_point 0 clat clon 0 0 0 z]"
  by (simp add: calculate_scan_grid_row_points grid_size_def radius_deg_def py_int_def
      py_range_def distance_miles_self Let_def)

lemma grid_radius_negative:
  assumes "r < 0"
  shows "calculate_scan_grid clat clon r z = []"
proof (rule ccontr)
  assume "calculate_scan_grid clat clon r z \<noteq> []"
  then obtain p where "p \<in> set (calculate_scan_grid clat clon r z)"
    by (cases "calculate_scan_grid clat clon r z") auto
  from grid_member [OF this]
  have "distance_miles clat clon (row_lat clat r z (gp_row p)) (col_lon clon r z (gp_col p)) \<le> r"
    by simp
  with distance_miles_nonneg [of clat clon "row_lat clat r z (gp_row p)" "col_lon clon r z (gp_col p)"]
    assms show False by linarith
qed

lemma grid_size_nonpositive:
  assumes "grid_size r z \<le> 0"
  shows "calculate_scan_grid clat clon r z = []"
  using assms by (simp add: calculate_scan_grid_row_points py_range_def)

lemma distance_miles_le:
  assumes r: "0 < r"
    and b: "((lat2 - lat1)\<^sup>2 + (lon2 - lon1)\<^sup>2) * (1 + (r / 7918)\<^sup>2) \<le> 8100 * (r / 7918)\<^sup>2"
  shows "distance_miles lat1 lon1 lat2 lon2 \<le> r"
proof -
  define x where "x = radians (lat2 - lat1) / 2"
  define y where "y = radians (lon2 - lon1) / 2"
  define c where "c = cos (radians lat1) * cos (radians lat2)"
  define a where "a = sin x * sin x + c * sin y * sin y"
  define t where "t = r / 7918"
  have t: "0 < t" using r by (simp add: t_def)
  have vu: "(radians lat2 - radians lat1) / 2 = x"
    by (simp add: x_def radians_def diff_divide_distrib right_diff_distrib left_diff_distrib)
  have a01: "0 \<le> a" "a \<le> 1"
    using haversine_term_bounds [of "radians lat2" "radians lat1" y]
    by (simp_all add: a_def c_def vu)
  have sq: "sin w * sin w \<le> w * w" for w :: real
    using abs_sin_x_le_abs_x [of w] abs_le_square_iff [of "sin w" w]
    by (simp add: power2_eq_square)
  have c1: "c \<le> 1"
  proof -
    have "\<bar>c\<bar> \<le> 1 * 1"
      unfolding c_def abs_mult by (intro mult_mono) simp_all
    then show ?thesis by simp
  qed
  have "c * (sin y * sin y) \<le> 1 * (sin y * sin y)"
    using c1 by (intro mult_right_mono) simp_all
  then have a_le: "a \<le> x * x + y * y"
    using sq [of x] sq [of y] by (simp add: a_def mult.assoc)
  have p90: "(pi / 360)\<^sup>2 \<le> (1 / 90)\<^sup>2"
    using pi_less_4 pi_gt_zero by (intro power_mono) simp_all
  have xx: "x * x = (lat2 - lat1)\<^sup>2 * (pi / 360)\<^sup>2"
    by (simp add: x_def radians_def power2_eq_square)
  have yy: "y * y = (lon2 - lon1)\<^sup>2 * (pi / 360)\<^sup>2"
    by (simp add: y_def radians_def power2_eq_square)
  have "x * x + y * y = ((lat2 - lat1)\<^sup>2 + (lon2 - lon1)\<^sup>2) * (pi / 360)\<^sup>2"
    by (simp add: xx yy distrib_right)
  also have "\<dots> \<le> ((lat2 - lat1)\<^sup>2 + (lon2 - lon1)\<^sup>2) * (1 / 90)\<^sup>2"
    using p90 by (intro mult_left_mono) simp_all
  finally have "a \<le> ((lat2 - lat1)\<^sup>2 + (lon2 - lon1)\<^sup>2) / 8100"
    using a_le by (simp add: power2_eq_square)
  then have "a * (1 + t\<^sup>2) \<le> ((lat2 - lat1)\<^sup>2 + (lon2 - lon1)\<^sup>2) / 8100 * (1 + t\<^sup>2)"
    by (intro mult_right_mono) simp_all
  also have "\<dots> \<le> t\<^sup>2"
    using b by (simp add: t_def)
  finally have at: "a * (1 + t\<^sup>2) \<le> t\<^sup>2" .
  then have a_t: "a \<le> t\<^sup>2 * (1 - a)"
    by (simp add: algebra_simps)
  have "a < 1"
  proof (rule ccontr)
    assume "\<not> a < 1"
    with a01 have "a = 1" by simp
    with at show False by simp
  qed
  then have pos: "0 < sqrt (1 - a)" by simp
  have "sqrt a \<le> sqrt (t\<^sup>2 * (1 - a))"
    using a_t by (rule real_sqrt_le_mono)
  also have "\<dots> = t * sqrt (1 - a)"
    using t by (simp add: real_sqrt_mult)
  finally have "sqrt a / sqrt (1 - a) \<le> t"
    using pos by (simp add: pos_divide_le_eq)
  moreover have "arctan (sqrt a / sqrt (1 - a)) \<le> sqrt a / sqrt (1 - a)"
    using a01 pos by (intro arctan_le_self) simp
  ultimately have "arctan (sqrt a / sqrt (1 - a)) \<le> t" by linarith
  then have "3959 * (2 * atan2 (sqrt a) (sqrt (1 - a))) \<le> r"
    using pos by (simp add: atan2_def t_def)
  then show ?thesis
    by (simp add: distance_miles_def Let_def a_def c_def x_def y_def mult.assoc)
qed

lemma pi_ge_three: "3 \<le> pi"
  using sin_x_le_x [of "pi / 6"] sin_30 by simp

lemma sin_lower:
  fixes x :: real
  assumes "0 \<le> x"
  shows "x - x ^ 3 / 6 \<le> sin x"
proof -
  have "(\<Sum>m<3. sin_coeff m * x ^ m) = x"
    by (simp add: sin_coeff_def numeral_3_eq_3)
  with Maclaurin_sin_bound [of x 3] have "\<bar>sin x - x\<bar> \<le> inverse (fact 3) * \<bar>x\<bar> ^ 3"
    by simp
  moreover have "fact 3 = (6::real)" by (simp add: numeral_3_eq_3)
  ultimately have "\<bar>sin x - x\<bar> \<le> x ^ 3 / 6"
    using assms by simp
  moreover have "x - sin x \<le> \<bar>sin x - x\<bar>" by simp
  ultimately show ?thesis by linarith
qed

lemma arctan_lower:
  fixes t :: real
  assumes t: "0 \<le> t"
  shows "t - t ^ 3 / 3 \<le> arctan t"
proof -
  have "(\<lambda>x. arctan x - x + x ^ 3 / 3) 0 \<le> (\<lambda>x. arctan x - x + x ^ 3 / 3) t"
  proof (rule DERIV_nonneg_imp_nondecreasing [OF t])
    fix x :: real
    have "((\<lambda>x. arctan x - x + x ^ 3 / 3) has_real_derivative
             (inverse (1 + x\<^sup>2) - 1 + x\<^sup>2)) (at x)"
      by (auto intro!: derivative_eq_intros)
    moreover have "1 - x\<^sup>2 \<le> inverse (1 + x\<^sup>2)"
    proof -
      have "(1 - x\<^sup>2) * (1 + x\<^sup>2) \<le> 1"
        by (simp add: algebra_simps)
      then show ?thesis
        by (simp add: inverse_eq_divide pos_le_divide_eq add_pos_nonneg)
    qed
    ultimately show "\<exists>y. ((\<lambda>x. arctan x - x + x ^ 3 / 3) has_real_derivative y) (at x) \<and> 0 \<le> y"
      by (intro exI [of _ "inverse (1 + x\<^sup>2) - 1 + x\<^sup>2"]) simp
  qed
  then show ?thesis by simp
qed

lemma atan2_ge_arctan:
  fixes x y :: real
  assumes "0 \<le> y" "0 \<le> x" "x \<le> 1"
  shows "arctan y \<le> atan2 y x"
proof (cases "x = 0")
  case True
  show ?thesis
  proof (cases "y = 0")
    case True
    with \<open>x = 0\<close> show ?thesis by (simp add: atan2_def)
  next
    case False
    with assms have "0 < y" by simp
    with \<open>x = 0\<close> arctan_ubound [of y] show ?thesis by (simp add: atan2_def)
  qed
next
  case False
  with assms have x: "0 < x" by simp
  have "y * x \<le> y * 1"
    using assms by (intro mult_left_mono) simp_all
  then have "y \<le> y / x"
    using x by (simp add: pos_le_divide_eq)
  then have "arctan y \<le> arctan (y / x)"
    by (rule arctan_monotone')
  with x show ?thesis by (simp add: atan2_def)
qed

subsection \<open>Rounding and a worked example\<close>

lemma py_round_error: "\<bar>py_round x n - x\<bar> \<le> 1 / (2 * 10 ^ n)"
proof -
  define y where "y = x * 10 ^ n"
  define k where "k = (if y - of_int \<lfloor>y\<rfloor> < 1 / 2 then \<lfloor>y\<rfloor>
                 else if 1 / 2 < y - of_int \<lfloor>y\<rfloor> then \<lfloor>y\<rfloor> + 1
                 else if even \<lfloor>y\<rfloor> then \<lfloor>y\<rfloor> else \<lfloor>y\<rfloor> + 1)"
  have r: "py_round x n = of_int k / 10 ^ n"
    by (simp add: py_round_def Let_def y_def k_def)
  have "\<bar>of_int k - y\<bar> \<le> 1 / 2"
    unfolding k_def by (auto simp: abs_le_iff)
  then have "\<bar>of_int k - y\<bar> / 10 ^ n \<le> (1 / 2) / 10 ^ n"
    by (intro divide_right_mono) simp_all
  moreover have "\<bar>of_int k - y\<bar> / 10 ^ n = \<bar>of_int k / 10 ^ n - x\<bar>"
  proof -
    have "of_int k / 10 ^ n - x = (of_int k - y) / 10 ^ n"
      by (simp add: y_def diff_divide_distrib)
    then show ?thesis by simp
  qed
  ultimately show ?thesis by (simp add: r)
qed

lemma grid_size_example: "grid_size 1 18 = 15"
  by (simp add: grid_size_def radius_deg_def step_size_def view_size_def viewport_degrees_def
      py_int_def)

lemma example_within:
  "distance_miles 0 0 (row_lat 0 1 18 8) (col_lon 0 1 18 7) \<le> 1"
  by (rule distance_miles_le)
     (simp_all add: row_lat_def col_lon_def radius_deg_def step_size_def view_size_def
        viewport_degrees_def power2_eq_square)

lemma example_within2:
  "distance_miles 0 0 (row_lat 0 1 18 8) (col_lon 0 1 18 8) \<le> 1"
  by (rule distance_miles_le)
     (simp_all add: row_lat_def col_lon_def radius_deg_def step_size_def view_size_def
        viewport_degrees_def power2_eq_square)

lemma example_within3:
  "distance_miles 0 0 (row_lat 0 1 18 7) (col_lon 0 1 18 7) \<le> 1"
  by (rule distance_miles_le)
     (simp_all add: row_lat_def col_lon_def radius_deg_def step_size_def view_size_def
        viewport_degrees_def power2_eq_square)

lemma example_within4:
  "distance_miles 0 0 (row_lat 0 1 18 7) (col_lon 0 1 18 8) \<le> 1"
  by (rule distance_miles_le)
     (simp_all add: row_lat_def col_lon_def radius_deg_def step_size_def view_size_def
        viewport_degrees_def power2_eq_square)

lemma example_cells:
  "\<exists>p\<in>set (calculate_scan_grid 0 0 1 18). gp_row p = 8 \<and> gp_col p = 7"
  "\<exists>p\<in>set (calculate_scan_grid 0 0 1 18). gp_row p = 8 \<and> gp_col p = 8"
  "\<exists>p\<in>set (calculate_scan_grid 0 0 1 18). gp_row p = 7 \<and> gp_col p = 7"
  "\<exists>p\<in>set (calculate_scan_grid 0 0 1 18). gp_row p = 7 \<and> gp_col p = 8"
  using grid_complete [of 8 1 18 7 0 0] grid_complete [of 8 1 18 8 0 0]
    grid_complete [of 7 1 18 7 0 0] grid_complete [of 7 1 18 8 0 0]
    example_within example_within2 example_within3 example_within4
  by (simp_all add: grid_size_example)

lemma example_corner_outside:
  "1 < distance_miles 0 0 (row_lat 0 1 18 0) (col_lon 0 1 18 0)"
proof -
  define h where "h = pi / 24840"
  define s where "s = sin h"
  define u where "u = s * s"
  define a where "a = u + cos (2 * h) * u"
  have d: "distance_miles 0 0 (row_lat 0 1 18 0) (col_lon 0 1 18 0) =
      3959 * (2 * atan2 (sqrt a) (sqrt (1 - a)))"
    by (simp add: distance_miles_def Let_def row_lat_def col_lon_def radius_deg_def radians_def
        a_def u_def s_def h_def mult.assoc)
  have h: "1 / 8280 \<le> h" "h \<le> 1 / 6210"
    using pi_ge_three pi_less_4 by (simp_all add: h_def)
  then have h0: "0 \<le> h" by simp
  have "h ^ 3 \<le> (1 / 6210) ^ 3"
    using h h0 by (intro power_mono) simp_all
  also have "\<dots> \<le> 1 / 1000000000" by (simp add: power3_eq_cube)
  finally have h3: "h ^ 3 \<le> 1 / 1000000000" .
  have s_lo: "12 / 100000 \<le> s"
    unfolding s_def using sin_lower [OF h0] h(1) h3 by linarith
  have s_hi: "s \<le> 1 / 6210"
    using sin_x_le_x [OF h0] h(2) unfolding s_def by simp
  have "(12 / 100000) * (12 / 100000) \<le> s * s"
    using s_lo by (intro mult_mono) simp_all
  then have u_lo: "144 / 10000000000 \<le> u" by (simp add: u_def)
  have "s * s \<le> (1 / 6210) * (1 / 6210)"
    using s_lo s_hi by (intro mult_mono) simp_all
  then have u_hi: "u \<le> 1 / 100" by (simp add: u_def)
  have c: "cos (2 * h) = 1 - 2 * u"
    using cos_double_sin [of h] by (simp add: u_def s_def power2_eq_square)
  have a: "a = 2 * u * (1 - u)"
    unfolding a_def c by (simp add: algebra_simps)
  have "2 * (144 / 10000000000) * (99 / 100) \<le> 2 * u * (1 - u)"
    using u_lo u_hi by (intro mult_mono) simp_all
  then have a_lo: "(14 / 100000)\<^sup>2 \<le> a"
    unfolding a by (simp add: power2_eq_square)
  have "2 * u * (1 - u) \<le> 2 * (1 / 100) * 1"
    using u_lo u_hi by (intro mult_mono) simp_all
  then have a_hi: "a \<le> 1" unfolding a by simp
  have a0: "0 \<le> a" using a_lo zero_le_power2 [of "14 / 100000 :: real"] by linarith
  have sq: "14 / 100000 \<le> sqrt a"
    using a_lo by (rule real_le_rsqrt)
  have "1 / 7918 < 14 / 100000 - (14 / 100000) ^ 3 / (3::real)"
    by (simp add: power3_eq_cube)
  also have "\<dots> \<le> arctan (14 / 100000)"
    by (rule arctan_lower) simp
  also have "\<dots> \<le> arctan (sqrt a)"
    using sq by (rule arctan_monotone')
  also have "\<dots> \<le> atan2 (sqrt a) (sqrt (1 - a))"
    using a0 a_hi by (intro atan2_ge_arctan) simp_all
  finally show ?thesis
    unfolding d by simp
qed

text \<open>
  C1. Every returned grid point was built from a cell of the lattice whose great-circle
  distance from the centre is at most the radius: the distance is that of the latitude
  and longitude which the generator tests and writes into the map links; the displayed
  \<open>distance_from_center\<close> is its rounding to two decimals and exceeds the radius by at
  most 0.005. No cell whose distance exceeds the radius has a point in the result.
\<close>

theorem grid_points_within_radius:
  "(\<forall>p\<in>set (calculate_scan_grid clat clon r z).
      0 \<le> gp_row p \<and> gp_row p < grid_size r z \<and> 0 \<le> gp_col p \<and> gp_col p < grid_size r z \<and>
      distance_miles clat clon (row_lat clat r z (gp_row p)) (col_lon clon r z (gp_col p)) \<le> r \<and>
      p = make_point (gp_id p) (row_lat clat r z (gp_row p)) (col_lon clon r z (gp_col p))
            (gp_row p) (gp_col p)
            (distance_miles clat clon (row_lat clat r z (gp_row p)) (col_lon clon r z (gp_col p)))
            z \<and>
      distance_from_center p \<le> r + 0.005) \<and>
   (\<forall>row col.
      r < distance_miles clat clon (row_lat clat r z row) (col_lon clon r z col) \<longrightarrow>
      (\<forall>p\<in>set (calculate_scan_grid clat clon r z). \<not> (gp_row p = row \<and> gp_col p = col)))"
proof (intro conjI ballI allI impI)
  fix p
  assume p: "p \<in> set (calculate_scan_grid clat clon r z)"
  define d where
    "d = distance_miles clat clon (row_lat clat r z (gp_row p)) (col_lon clon r z (gp_col p))"
  note m = grid_member [OF p, folded d_def]
  from m show "0 \<le> gp_row p" "gp_row p < grid_size r z" "0 \<le> gp_col p"
    "gp_col p < grid_size r z" "d \<le> r"
    and eq: "p = make_point (gp_id p) (row_lat clat r z (gp_row p)) (col_lon clon r z (gp_col p))
            (gp_row p) (gp_col p) d z"
    by simp_all
  have "distance_from_center p = py_round d 2"
    by (subst eq) (simp add: make_point_def)
  moreover have "py_round d 2 \<le> d + 1 / 200"
  proof -
    have "py_round d 2 - d \<le> \<bar>py_round d 2 - d\<bar>" by simp
    also have "\<dots> \<le> 1 / (2 * 10 ^ 2)" by (rule py_round_error)
    finally show ?thesis by simp
  qed
  ultimately show "distance_from_center p \<le> r + 0.005"
    using \<open>d \<le> r\<close> by simp
next
  fix row col p
  assume far: "r < distance_miles clat clon (row_lat clat r z row) (col_lon clon r z col)"
    and p: "p \<in> set (calculate_scan_grid clat clon r z)"
  from grid_member [OF p] far show "\<not> (gp_row p = row \<and> gp_col p = col)"
    by auto
qed

theorem grid_points_within_radius_witness:
  "(\<exists>p\<in>set (calculate_scan_grid 0 0 1 18).
      gp_row p = 8 \<and> gp_col p = 7 \<and>
      distance_miles 0 0 (row_lat 0 1 18 8) (col_lon 0 1 18 7) \<le> 1 \<and>
      distance_from_center p \<le> 1.005) \<and>
   1 < distance_miles 0 0 (row_lat 0 1 18 0) (col_lon 0 1 18 0) \<and>
   \<not> (\<exists>p\<in>set (calculate_scan_grid 0 0 1 18). gp_row p = 0 \<and> gp_col p = 0)"
proof -
  obtain p where p: "p \<in> set (calculate_scan_grid 0 0 1 18)" "gp_row p = 8" "gp_col p = 7"
    using grid_complete [of 8 1 18 7 0 0] example_within
    by (auto simp: grid_size_example)
  note inst = grid_points_within_radius [of 0 0 1 18]
  from inst p have "distance_miles 0 0 (row_lat 0 1 18 8) (col_lon 0 1 18 7) \<le> 1"
    "distance_from_center p \<le> 1.005"
    by auto
  moreover from inst example_corner_outside
  have "\<not> (\<exists>p\<in>set (calculate_scan_grid 0 0 1 18). gp_row p = 0 \<and> gp_col p = 0)"
    by blast
  ultimately show ?thesis
    using p example_corner_outside by blast
qed

text \<open>
  C2. Every returned point of row \<open>r\<close> was built from the latitude
  \<open>center_lat - radius_deg + r * step_size\<close>, which is the latitude in its map links and,
  rounded to six decimals, its \<open>lat\<close>. The sequence runs through the rows in ascending
  order; inside a row with an even index the column index increases, inside a row with
  an odd index it decreases, so the direction flips from each row to the next.
\<close>

theorem grid_serpentine_order:
  "(\<forall>p\<in>set (calculate_scan_grid clat clon r z).
      p = make_point (gp_id p) (row_lat clat r z (gp_row p)) (col_lon clon r z (gp_col p))
            (gp_row p) (gp_col p)
            (distance_miles clat clon (row_lat clat r z (gp_row p)) (col_lon clon r z (gp_col p)))
            z \<and>
      row_lat clat r z (gp_row p) = clat - radius_deg r + of_int (gp_row p) * step_size z \<and>
      gp_lat p = py_round (row_lat clat r z (gp_row p)) 6) \<and>
   (\<forall>i j. i < j \<and> j < length (calculate_scan_grid clat clon r z) \<longrightarrow>
      (let p = calculate_scan_grid clat clon r z ! i;
           q = calculate_scan_grid clat clon r z ! j
       in gp_row p \<le> gp_row q \<and>
          (gp_row p = gp_row q \<longrightarrow>
             (if gp_row p mod 2 = 0 then gp_col p < gp_col q else gp_col q < gp_col p))))"
proof (intro conjI ballI allI impI)
  fix p
  assume p: "p \<in> set (calculate_scan_grid clat clon r z)"
  from grid_member [OF p]
  show eq: "p = make_point (gp_id p) (row_lat clat r z (gp_row p)) (col_lon clon r z (gp_col p))
            (gp_row p) (gp_col p)
            (distance_miles clat clon (row_lat clat r z (gp_row p)) (col_lon clon r z (gp_col p)))
            z"
    by simp
  show "row_lat clat r z (gp_row p) = clat - radius_deg r + of_int (gp_row p) * step_size z"
    by (simp add: row_lat_def)
  show "gp_lat p = py_round (row_lat clat r z (gp_row p)) 6"
    by (subst eq) (simp add: make_point_def)
next
  fix i j
  assume "i < j \<and> j < length (calculate_scan_grid clat clon r z)"
  with grid_serpentine [of clat clon r z]
  have "serpentine_before (calculate_scan_grid clat clon r z ! i)
          (calculate_scan_grid clat clon r z ! j)"
    by (simp add: sorted_wrt_iff_nth_less)
  then show "let p = calculate_scan_grid clat clon r z ! i;
           q = calculate_scan_grid clat clon r z ! j
       in gp_row p \<le> gp_row q \<and>
          (gp_row p = gp_row q \<longrightarrow>
             (if gp_row p mod 2 = 0 then gp_col p < gp_col q else gp_col q < gp_col p))"
    by (auto simp: serpentine_before_def Let_def)
qed

theorem grid_serpentine_order_witness:
  "(\<exists>i j. i < j \<and> j < length (calculate_scan_grid 0 0 1 18) \<and>
      gp_row (calculate_scan_grid 0 0 1 18 ! i) = 8 \<and> gp_col (calculate_scan_grid 0 0 1 18 ! i) = 7 \<and>
      gp_row (calculate_scan_grid 0 0 1 18 ! j) = 8 \<and> gp_col (calculate_scan_grid 0 0 1 18 ! j) = 8 \<and>
      gp_lat (calculate_scan_grid 0 0 1 18 ! i) = 1507 / 1000000) \<and>
   (\<exists>i j. i < j \<and> j < length (calculate_scan_grid 0 0 1 18) \<and>
      gp_row (calculate_scan_grid 0 0 1 18 ! i) = 7 \<and> gp_col (calculate_scan_grid 0 0 1 18 ! i) = 8 \<and>
      gp_row (calculate_scan_grid 0 0 1 18 ! j) = 7 \<and> gp_col (calculate_scan_grid 0 0 1 18 ! j) = 7)"
proof -
  define G where "G = calculate_scan_grid 0 0 1 18"
  note inst = grid_serpentine_order [of 0 0 1 18, folded G_def]
  have order: "gp_row (G ! i) = gp_row (G ! j) \<Longrightarrow>
      (if gp_row (G ! i) mod 2 = 0 then gp_col (G ! i) < gp_col (G ! j)
       else gp_col (G ! j) < gp_col (G ! i))" if "i < j" "j < length G" for i j
    using inst that by (simp add: Let_def)
  have lat: "gp_lat p = py_round (row_lat 0 1 18 (gp_row p)) 6" if "p \<in> set G" for p
    using inst that by blast
  from example_cells [folded G_def] obtain i j k l where
    i: "i < length G" "gp_row (G ! i) = 8" "gp_col (G ! i) = 7" and
    j: "j < length G" "gp_row (G ! j) = 8" "gp_col (G ! j) = 8" and
    k: "k < length G" "gp_row (G ! k) = 7" "gp_col (G ! k) = 7" and
    l: "l < length G" "gp_row (G ! l) = 7" "gp_col (G ! l) = 8"
    by (metis in_set_conv_nth)
  have "i < j"
  proof (rule ccontr)
    assume "\<not> i < j"
    moreover from i j have "i \<noteq> j" by auto
    ultimately have "j < i" by simp
    from order [OF this i(1)] i j show False by simp
  qed
  moreover have "l < k"
  proof (rule ccontr)
    assume "\<not> l < k"
    moreover from k l have "k \<noteq> l" by auto
    ultimately have "k < l" by simp
    from order [OF this l(1)] k l show False by simp
  qed
  moreover have "gp_lat (G ! i) = 1507 / 1000000"
    using lat [of "G ! i"] i
    by (simp add: row_lat_def radius_deg_def step_size_def view_size_def viewport_degrees_def
        py_round_def Let_def)
  ultimately show ?thesis
    using i j k l unfolding G_def [symmetric] by blast
qed

text \<open>
  C3. The identifiers of the returned grid points are 0, 1, 2, ... in the order of the
  returned sequence: the point at position \<open>i\<close> has identifier \<open>i\<close>.
\<close>

theorem grid_ids_contiguous:
  "map gp_id (calculate_scan_grid clat clon r z) =
     map int [0..<length (calculate_scan_grid clat clon r z)]"
  using row_points_ids [of clat clon r z "radius_deg r" "step_size z" "grid_size r z" 0
          "py_range (grid_size r z)"]
  by (simp add: calculate_scan_grid_row_points)

text \<open>
  C4, as stated, fails for a radius of zero: the single cell of the lattice is the centre
  itself, at distance 0, and it is retained.
\<close>

theorem degenerate_radius_counterexample:
  "(0::real) \<le> 0 \<and>
   calculate_scan_grid 35.4922086 (-94.2260868) 0 18 =
     [make_point 0 35.4922086 (-94.2260868) 0 0 0 18] \<and>
   calculate_scan_grid 35.4922086 (-94.2260868) 0 18 \<noteq> []"
  by (simp add: grid_radius_zero)

text \<open>
  C4, amended. A negative radius, and any input whose \<open>grid_size\<close> is not positive,
  gives the empty sequence; a radius of zero gives exactly one point, the centre, with
  identifier 0 in row 0 and column 0.
\<close>

theorem degenerate_radius_grid:
  "(r < 0 \<or> grid_size r z \<le> 0 \<longrightarrow> calculate_scan_grid clat clon r z = []) \<and>
   (r = 0 \<longrightarrow> calculate_scan_grid clat clon r z = [make_point 0 clat clon 0 0 0 z])"
  using grid_radius_negative [of r clat clon z] grid_size_nonpositive [of r z clat clon]
    grid_radius_zero [of clat clon z]
  by blast

theorem degenerate_radius_grid_witness:
  "(- 1 :: real) < 0 \<and> grid_size (- 1) 18 = - 13 \<and> calculate_scan_grid 0 0 (- 1) 18 = [] \<and>
   (- 1 / 1000 :: real) < 0 \<and> grid_size (- 1 / 1000) 18 = 1 \<and>
   calculate_scan_grid 0 0 (- 1 / 1000) 18 = [] \<and>
   calculate_scan_grid 35.4922086 (-94.2260868) 0 18 =
     [make_point 0 35.4922086 (-94.2260868) 0 0 0 18]"
proof -
  have "\<lceil>- (1 / 69) :: real\<rceil> = 0"
    by (rule ceiling_unique) simp_all
  then have "grid_size (- 1) 18 = - 13" "grid_size (- 1 / 1000) 18 = 1"
    by (simp_all add: grid_size_def radius_deg_def step_size_def view_size_def
        viewport_degrees_def py_int_def)
  then show ?thesis
    using degenerate_radius_grid [of "- 1" 18 0 0] degenerate_radius_grid [of "- 1 / 1000" 18 0 0]
      degenerate_radius_grid [of 0 18 "35.4922086" "-94.2260868"]
    by simp
qed

section \<open>Properties of the session handlers\<close>

lemma lookup_session_update:
  "lookup_session ss cookie = Some s \<Longrightarrow>
   lookup_session (ss(the cookie \<mapsto> s')) cookie = Some s'"
  by (auto simp: lookup_session_def split: option.splits if_splits)

lemma lookup_example:
  "lookup_session [''s1'' \<mapsto> s] (Some ''s1'') = Some s"
  by (simp add: lookup_session_def)

lemma py_val_min: "py_val (py_min a b) = min (py_val a) (py_val b)"
  by (simp add: py_min_def min_def)

lemma py_val_max: "py_val (py_max a b) = max (py_val a) (py_val b)"
  by (simp add: py_max_def max_def)

lemma py_val_add: "py_val (py_add a b) = py_val a + py_val b"
  by (cases a; cases b) simp_all

lemma py_val_sub: "py_val (py_sub a b) = py_val a - py_val b"
  by (cases a; cases b) simp_all

lemma py_min_int: "py_min (PInt a) (PInt b) = PInt (min a b)"
  by (simp add: py_min_def min_def)

lemma py_max_int: "py_max (PInt a) (PInt b) = PInt (max a b)"
  by (simp add: py_max_def max_def)

lemma control_scan_found:
  "lookup_session ss cookie = Some s \<Longrightarrow>
   control_scan ss cookie req now =
     (case apply_action req s of
        Inl e \<Rightarrow> (Inl e, ss)
      | Inr s' \<Rightarrow> (Inr ControlSuccess, ss(the cookie \<mapsto> s'\<lparr>last_activity := now\<rparr>)))"
  by (simp add: control_scan_def)

lemma py_index_in_range:
  "0 \<le> i \<Longrightarrow> i < int (length xs) \<Longrightarrow> py_index xs (PInt i) = Inr (xs ! nat i)"
  by simp

lemma apply_action_inside:
  "cursor_inside s \<Longrightarrow> apply_action req s = Inr s' \<Longrightarrow>
   cursor_inside s' \<and> grid_points s' = grid_points s"
  by (auto simp: cursor_inside_def apply_action_def py_val_min py_val_max py_val_add py_val_sub
      split: if_splits sum.splits)

lemma apply_action_integer:
  assumes "current_index s = PInt c" and "apply_action req s = Inr s'"
    and "case index req of Some (JFloat x) \<Rightarrow> False | _ \<Rightarrow> True"
  shows "\<exists>c'. current_index s' = PInt c'"
proof (cases "action req = ''jump''")
  case True
  from assms(3) obtain k where "jump_index (index req) = Inr (PInt k) \<or>
      (\<exists>e. jump_index (index req) = Inl e)"
    by (cases "index req"; cases "the (index req)") (auto simp: jump_index_def)
  with assms(1,2) True show ?thesis
    by (auto simp: apply_action_def py_min_int py_max_int)
next
  case False
  with assms(1,2) show ?thesis
    by (auto simp: apply_action_def py_min_int py_max_int split: if_splits)
qed

lemma handle_request_inside:
  assumes "lookup_session ss cookie = Some s" and "cursor_inside s"
  shows "\<exists>s'. lookup_session (handle_request cookie ss req) cookie = Some s' \<and>
           cursor_inside s' \<and> grid_points s' = grid_points s \<and>
           (integer_request req \<longrightarrow> (\<exists>c. current_index s = PInt c) \<longrightarrow>
              (\<exists>c'. current_index s' = PInt c'))"
proof (cases req)
  case GetCurrentLocation
  with assms show ?thesis
    by (auto simp: get_current_location_def split: sum.splits)
next
  case (ControlScan r now)
  show ?thesis
  proof (cases "apply_action r s")
    case (Inl e)
    with assms ControlScan show ?thesis
      by (simp add: control_scan_found)
  next
    case (Inr s1)
    from apply_action_inside [OF assms(2) Inr]
    have "cursor_inside (s1\<lparr>last_activity := now\<rparr>)"
      "grid_points (s1\<lparr>last_activity := now\<rparr>) = grid_points s"
      by (auto simp: cursor_inside_def)
    moreover have "\<exists>c'. current_index (s1\<lparr>last_activity := now\<rparr>) = PInt c'"
      if "integer_request req" "current_index s = PInt c" for c
      using apply_action_integer [OF that(2) Inr] that(1) ControlScan by simp
    ultimately show ?thesis
      using assms(1) ControlScan Inr
      by (auto simp: control_scan_found lookup_session_update)
  qed
next
  case (AddBookmark n u t1 t2)
  with assms show ?thesis
    by (auto simp: add_bookmark_def Let_def lookup_session_update cursor_inside_def
        split: sum.splits)
next
  case GetBookmarks
  with assms show ?thesis by (simp add: get_bookmarks_def)
next
  case ExportBookmarks
  with assms show ?thesis
    by (auto simp: export_bookmarks_def split: sum.splits)
qed

lemma handle_requests_inside:
  "lookup_session ss cookie = Some s \<Longrightarrow> cursor_inside s \<Longrightarrow>
   \<exists>s'. lookup_session (handle_requests cookie ss reqs) cookie = Some s' \<and>
        cursor_inside s' \<and> grid_points s' = grid_points s \<and>
        ((\<forall>req\<in>set reqs. integer_request req) \<longrightarrow> (\<exists>c. current_index s = PInt c) \<longrightarrow>
           (\<exists>c'. current_index s' = PInt c'))"
proof (induction reqs arbitrary: ss s)
  case Nil
  then show ?case by (simp add: handle_requests_def)
next
  case (Cons req reqs)
  from handle_request_inside [OF Cons.prems, of req] obtain s1 where
    s1: "lookup_session (handle_request cookie ss req) cookie = Some s1"
      "cursor_inside s1" "grid_points s1 = grid_points s"
      "integer_request req \<longrightarrow> (\<exists>c. current_index s = PInt c) \<longrightarrow>
         (\<exists>c'. current_index s1 = PInt c')"
    by blast
  from Cons.IH [OF s1(1,2)] s1(3,4) show ?case
    by (auto simp: handle_requests_def)
qed

lemma setup_scan_success:
  assumes "setup_scan ss0 c0 data uuid now1 now2 = (SetupSuccess sid n est, ss, cookie)"
  shows "\<exists>s. sid = uuid \<and> cookie = Some uuid \<and> ss uuid = Some s \<and>
           current_index s = PInt 0 \<and>
           int (length (grid_points s)) = n \<and> bookmarks s = [] \<and>
           \<not> is_running s \<and> \<not> is_paused s"
  using assms
  by (auto simp: setup_scan_def Let_def split: option.splits)

lemma empty_grid_session:
  "setup_scan Map.empty None (example_data (- 1)) ''s1'' ''t0'' ''t0'' =
     (SetupSuccess ''s1'' 0 0,
      [''s1'' \<mapsto> (example_session [] 0)\<lparr>radius_miles := - 1\<rparr>], Some ''s1'')"
  by (simp add: setup_scan_def example_data_def example_session_def grid_radius_negative)

lemma export_bookmarks_nonempty:
  assumes "lookup_session ss cookie = Some s" and "grid_points s \<noteq> []"
  shows "\<exists>doc. export_bookmarks ss cookie = (Inr (ExportData doc), ss) \<and>
           completion_percentage (export_summary doc) =
             py_val (current_index s) / of_int (int (length (grid_points s))) * 100 \<and>
           export_bookmarks_list doc = bookmarks s \<and>
           info_center_lat (export_scan_info doc) = center_lat s \<and>
           info_center_lon (export_scan_info doc) = center_lon s \<and>
           info_radius_miles (export_scan_info doc) = radius_miles s \<and>
           info_zoom_level (export_scan_info doc) = zoom_level s"
  using assms by (simp add: export_bookmarks_def py_truediv_def)

text \<open>
  C5. The invariant \<open>0 \<le> current_index \<le> len\<close> holds at creation but is broken by \<open>next\<close> on
  a session whose grid is empty: a negative radius gives the empty grid, the session
  starts at index 0, and \<open>next\<close> stores \<open>min (0 + 1) (0 - 1) = -1\<close>. The handler has no lower
  clamp, unlike \<open>previous\<close> and \<open>jump\<close>. The next \<open>get_current_location\<close> then subscripts
  the empty list and raises.
\<close>

theorem next_on_empty_grid:
  "map_option (\<lambda>s. (grid_points s, current_index s))
     (lookup_session
        (fst (snd (setup_scan Map.empty None (example_data (- 1)) ''s1'' ''t0'' ''t0'')))
        (Some ''s1'')) = Some ([], PInt 0) \<and>
   map_option (\<lambda>s. (grid_points s, current_index s))
     (lookup_session
        (handle_requests (Some ''s1'')
           (fst (snd (setup_scan Map.empty None (example_data (- 1)) ''s1'' ''t0'' ''t0'')))
           [ControlScan \<lparr>action = ''next'', index = None\<rparr> ''t1''])
        (Some ''s1'')) = Some ([], PInt (- 1)) \<and>
   fst (get_current_location
          (handle_requests (Some ''s1'')
             (fst (snd (setup_scan Map.empty None (example_data (- 1)) ''s1'' ''t0'' ''t0'')))
             [ControlScan \<lparr>action = ''next'', index = None\<rparr> ''t1''])
          (Some ''s1'')) = Inl IndexError"
  by (simp add: empty_grid_session handle_requests_def control_scan_def lookup_session_def
      apply_action_def example_session_def get_current_location_def py_min_def)

text \<open>
  C6. On an existing session, \<open>next\<close> sets \<open>current_index\<close> to
  \<open>min (current_index + 1) (len - 1)\<close>, which is never above \<open>len - 1\<close>; \<open>previous\<close> sets it
  to \<open>max (current_index - 1) 0\<close>, which is never below 0; \<open>jump\<close> with a numeric index (0
  when the request has none) sets it to \<open>max 0 (min index (len - 1))\<close>, which lies in
  \<open>[0, len - 1]\<close> whenever the grid is not empty. The results are given as the Python
  numbers that are stored, by their values, and as integers when the cursor and the
  index are integers. Jumping to 9999 on 500 points gives 499.
\<close>

theorem control_navigation:
  "lookup_session ss cookie = Some s \<Longrightarrow>
   lookup_session (snd (control_scan ss cookie \<lparr>action = ''next'', index = i\<rparr> now)) cookie =
     Some (s\<lparr>current_index :=
               py_min (py_add (current_index s) (PInt 1))
                 (PInt (int (length (grid_points s)) - 1)),
             last_activity := now\<rparr>) \<and>
   py_val (py_min (py_add (current_index s) (PInt 1)) (PInt (int (length (grid_points s)) - 1))) =
     min (py_val (current_index s) + 1) (of_int (int (length (grid_points s)) - 1)) \<and>
   py_val (py_min (py_add (current_index s) (PInt 1)) (PInt (int (length (grid_points s)) - 1))) \<le>
     of_int (int (length (grid_points s)) - 1) \<and>
   lookup_session (snd (control_scan ss cookie \<lparr>action = ''previous'', index = i\<rparr> now)) cookie =
     Some (s\<lparr>current_index := py_max (py_sub (current_index s) (PInt 1)) (PInt 0),
             last_activity := now\<rparr>) \<and>
   py_val (py_max (py_sub (current_index s) (PInt 1)) (PInt 0)) =
     max (py_val (current_index s) - 1) 0 \<and>
   0 \<le> py_val (py_max (py_sub (current_index s) (PInt 1)) (PInt 0)) \<and>
   (\<forall>idx. jump_index i = Inr idx \<longrightarrow>
      lookup_session (snd (control_scan ss cookie \<lparr>action = ''jump'', index = i\<rparr> now)) cookie =
        Some (s\<lparr>current_index :=
                  py_max (PInt 0) (py_min idx (PInt (int (length (grid_points s)) - 1))),
                last_activity := now\<rparr>) \<and>
      py_val (py_max (PInt 0) (py_min idx (PInt (int (length (grid_points s)) - 1)))) =
        max 0 (min (py_val idx) (of_int (int (length (grid_points s)) - 1))) \<and>
      (grid_points s \<noteq> [] \<longrightarrow>
         0 \<le> py_val (py_max (PInt 0) (py_min idx (PInt (int (length (grid_points s)) - 1)))) \<and>
         py_val (py_max (PInt 0) (py_min idx (PInt (int (length (grid_points s)) - 1)))) \<le>
           of_int (int (length (grid_points s)) - 1))) \<and>
   (\<forall>c. current_index s = PInt c \<longrightarrow>
      py_min (py_add (current_index s) (PInt 1)) (PInt (int (length (grid_points s)) - 1)) =
        PInt (min (c + 1) (int (length (grid_points s)) - 1)) \<and>
      py_max (py_sub (current_index s) (PInt 1)) (PInt 0) = PInt (max (c - 1) 0)) \<and>
   jump_index None = Inr (PInt 0) \<and>
   (\<forall>k. jump_index (Some (JInt k)) = Inr (PInt k) \<and>
      py_max (PInt 0) (py_min (PInt k) (PInt (int (length (grid_points s)) - 1))) =
        PInt (max 0 (min k (int (length (grid_points s)) - 1))))"
proof -
  assume look: "lookup_session ss cookie = Some s"
  have nxt: "apply_action \<lparr>action = ''next'', index = i\<rparr> s =
      Inr (s\<lparr>current_index := py_min (py_add (current_index s) (PInt 1))
                 (PInt (int (length (grid_points s)) - 1))\<rparr>)"
    by (simp add: apply_action_def)
  have prv: "apply_action \<lparr>action = ''previous'', index = i\<rparr> s =
      Inr (s\<lparr>current_index := py_max (py_sub (current_index s) (PInt 1)) (PInt 0)\<rparr>)"
    by (simp add: apply_action_def)
  have jmp: "apply_action \<lparr>action = ''jump'', index = i\<rparr> s =
      Inr (s\<lparr>current_index :=
              py_max (PInt 0) (py_min idx (PInt (int (length (grid_points s)) - 1)))\<rparr>)"
    if "jump_index i = Inr idx" for idx
    using that by (simp add: apply_action_def)
  have rng: "0 \<le> py_val (py_max (PInt 0) (py_min idx (PInt (int (length (grid_points s)) - 1)))) \<and>
      py_val (py_max (PInt 0) (py_min idx (PInt (int (length (grid_points s)) - 1)))) \<le>
        of_int (int (length (grid_points s)) - 1)"
    if "grid_points s \<noteq> []" for idx
    using that by (cases "grid_points s") (simp_all add: py_val_max py_val_min)
  show ?thesis
    using look rng
    by (simp add: control_scan_found lookup_session_update nxt prv jmp py_val_min py_val_max
        py_val_add py_val_sub py_min_int py_max_int jump_index_def)
qed

theorem control_navigation_witness:
  "lookup_session [''s1'' \<mapsto> example_session (replicate 500 (make_point 0 0 0 0 0 0 18)) 0]
     (Some ''s1'') =
     Some (example_session (replicate 500 (make_point 0 0 0 0 0 0 18)) 0) \<and>
   map_option current_index
     (lookup_session
        (snd (control_scan
                [''s1'' \<mapsto> example_session (replicate 500 (make_point 0 0 0 0 0 0 18)) 0]
                (Some ''s1'') \<lparr>action = ''jump'', index = Some (JInt 9999)\<rparr> ''t1''))
        (Some ''s1'')) = Some (PInt 499) \<and>
   map_option current_index
     (lookup_session
        (snd (control_scan
                [''s1'' \<mapsto> example_session (replicate 500 (make_point 0 0 0 0 0 0 18)) 0]
                (Some ''s1'') \<lparr>action = ''jump'', index = Some (JFloat (5 / 2))\<rparr> ''t1''))
        (Some ''s1'')) = Some (PFloat (5 / 2)) \<and>
   map_option current_index
     (lookup_session
        (snd (control_scan
                [''s1'' \<mapsto> example_session (replicate 500 (make_point 0 0 0 0 0 0 18)) 499]
                (Some ''s1'') \<lparr>action = ''next'', index = None\<rparr> ''t1''))
        (Some ''s1'')) = Some (PInt 499) \<and>
   map_option current_index
     (lookup_session
        (snd (control_scan
                [''s1'' \<mapsto> example_session (replicate 500 (make_point 0 0 0 0 0 0 18)) 0]
                (Some ''s1'') \<lparr>action = ''previous'', index = None\<rparr> ''t1''))
        (Some ''s1'')) = Some (PInt 0)"
  using control_navigation [OF lookup_example,
      of "example_session (replicate 500 (make_point 0 0 0 0 0 0 18)) 0" "Some (JInt 9999)" "''t1''"]
    control_navigation [OF lookup_example,
      of "example_session (replicate 500 (make_point 0 0 0 0 0 0 18)) 0" "Some (JFloat (5 / 2))"
         "''t1''"]
    control_navigation [OF lookup_example,
      of "example_session (replicate 500 (make_point 0 0 0 0 0 0 18)) 499" None "''t1''"]
    control_navigation [OF lookup_example,
      of "example_session (replicate 500 (make_point 0 0 0 0 0 0 18)) 0" None "''t1''"]
  by (simp add: lookup_example example_session_def jump_index_def py_min_def py_max_def)



text \<open>
  C8. On a session whose grid is empty the export divides by zero and raises instead of
  returning a snapshot; the store is unchanged. On a session whose grid is not empty,
  \<open>export_bookmarks_nonempty\<close> gives the snapshot with the completion percentage, the scan
  parameters and all bookmarks.
\<close>

theorem export_on_empty_grid:
  "export_bookmarks
     (fst (snd (setup_scan Map.empty None (example_data (- 1)) ''s1'' ''t0'' ''t0'')))
     (Some ''s1'') =
     (Inl ZeroDivisionError,
      fst (snd (setup_scan Map.empty None (example_data (- 1)) ''s1'' ''t0'' ''t0'')))"
  by (simp add: empty_grid_session export_bookmarks_def lookup_session_def py_truediv_def
      example_session_def)




text \<open>
  C10. After \<open>setup_scan\<close> has created a session with at least one grid point, every
  sequence of requests of that browser (control actions with any JSON index, bookmarks
  and reads) leaves \<open>0 \<le> current_index \<le> len - 1\<close>: the index never equals the length,
  \<open>get_current_location\<close> never answers \<open>completed\<close> and \<open>add_bookmark\<close> never answers with
  its error response. While the cursor is an integer, as it is when no request carries a
  float index, \<open>get_current_location\<close> returns the point under the cursor and
  \<open>add_bookmark\<close> succeeds.
\<close>

theorem cursor_never_completes:
  "setup_scan ss0 c0 data uuid now1 now2 = (SetupSuccess sid n est, ss, cookie) \<Longrightarrow>
   uuid \<noteq> [] \<Longrightarrow> 0 < n \<Longrightarrow>
   (\<exists>s'. lookup_session (handle_requests cookie ss reqs) cookie = Some s' \<and>
      int (length (grid_points s')) = n \<and>
      0 \<le> py_val (current_index s') \<and>
      py_val (current_index s') \<le> of_int (int (length (grid_points s')) - 1) \<and>
      py_val (current_index s') \<noteq> of_int (int (length (grid_points s'))) \<and>
      fst (get_current_location (handle_requests cookie ss reqs) cookie) \<noteq>
        Inr LocationCompleted \<and>
      fst (add_bookmark (handle_requests cookie ss reqs) cookie req_note bid ta tb) \<noteq>
        Inr BookmarkInvalidLocation \<and>
      (\<forall>c. current_index s' = PInt c \<longrightarrow>
         0 \<le> c \<and> c \<le> int (length (grid_points s')) - 1 \<and>
         fst (get_current_location (handle_requests cookie ss reqs) cookie) =
           Inr (LocationCurrent (grid_points s' ! nat c) (PInt c) n
                  (py_round (of_int c / of_int n * 100) 1)
                  (is_running s') (is_paused s')) \<and>
         fst (add_bookmark (handle_requests cookie ss reqs) cookie req_note bid ta tb) =
           Inr (BookmarkSuccess
                  (make_bookmark (grid_points s' ! nat c) (PInt c) req_note bid ta))) \<and>
      ((\<forall>req\<in>set reqs. integer_request req) \<longrightarrow> (\<exists>c. current_index s' = PInt c)))"
proof -
  assume created: "setup_scan ss0 c0 data uuid now1 now2 = (SetupSuccess sid n est, ss, cookie)"
    and uuid: "uuid \<noteq> []" and n: "0 < n"
  from setup_scan_success [OF created] obtain s where
    s: "cookie = Some uuid" "ss uuid = Some s" "current_index s = PInt 0"
      "int (length (grid_points s)) = n"
    by blast
  from s uuid have look: "lookup_session ss cookie = Some s"
    by (simp add: lookup_session_def)
  from s n have "cursor_inside s"
    by (simp add: cursor_inside_def)
  from handle_requests_inside [OF look this, of reqs] s(3) obtain s' where
    s': "lookup_session (handle_requests cookie ss reqs) cookie = Some s'"
      "cursor_inside s'" "grid_points s' = grid_points s"
      "(\<forall>req\<in>set reqs. integer_request req) \<longrightarrow> (\<exists>c. current_index s' = PInt c)"
    by auto
  from s' s have len: "int (length (grid_points s')) = n"
    and lo: "0 \<le> py_val (current_index s')"
    and hi: "py_val (current_index s') \<le> of_int (int (length (grid_points s')) - 1)"
    by (simp_all add: cursor_inside_def)
  from hi have lt: "py_val (current_index s') < of_int (int (length (grid_points s')))"
    by simp
  have loc: "fst (get_current_location (handle_requests cookie ss reqs) cookie) \<noteq>
      Inr LocationCompleted"
    using s'(1) lt by (simp add: get_current_location_def split: sum.splits)
  have bm: "fst (add_bookmark (handle_requests cookie ss reqs) cookie req_note bid ta tb) \<noteq>
      Inr BookmarkInvalidLocation"
    using s'(1) lt by (simp add: add_bookmark_def Let_def split: sum.splits)
  have int_case: "0 \<le> c \<and> c \<le> int (length (grid_points s')) - 1 \<and>
         fst (get_current_location (handle_requests cookie ss reqs) cookie) =
           Inr (LocationCurrent (grid_points s' ! nat c) (PInt c) n
                  (py_round (of_int c / of_int n * 100) 1)
                  (is_running s') (is_paused s')) \<and>
         fst (add_bookmark (handle_requests cookie ss reqs) cookie req_note bid ta tb) =
           Inr (BookmarkSuccess
                  (make_bookmark (grid_points s' ! nat c) (PInt c) req_note bid ta))"
    if c: "current_index s' = PInt c" for c
  proof -
    from lo hi c have r: "0 \<le> c" "c < int (length (grid_points s'))"
      by simp_all
    then show ?thesis
      using s'(1) c len
      by (simp add: get_current_location_def add_bookmark_def Let_def)
  qed
  show ?thesis
    using s'(1,4) len lo hi lt loc bm int_case
    by (intro exI [of _ s']) simp
qed

theorem cursor_never_completes_witness:
  "''s1'' \<noteq> [] \<and> 0 < int (length (calculate_scan_grid 0 0 1 18)) \<and>
   (\<exists>s' c. lookup_session
            (handle_requests (Some ''s1'')
               (fst (snd (setup_scan Map.empty None (example_data 1) ''s1'' ''t0'' ''t0'')))
               [ControlScan \<lparr>action = ''jump'', index = Some (JInt 9999)\<rparr> ''t1'',
                ControlScan \<lparr>action = ''jump'', index = Some JNull\<rparr> ''t2'',
                ControlScan \<lparr>action = ''next'', index = None\<rparr> ''t3''])
            (Some ''s1'') = Some s' \<and>
      grid_points s' = calculate_scan_grid 0 0 1 18 \<and>
      current_index s' = PInt c \<and> 0 \<le> c \<and>
      c \<le> int (length (grid_points s')) - 1 \<and>
      c \<noteq> int (length (grid_points s'))) \<and>
   (\<exists>s'. lookup_session
            (handle_requests (Some ''s1'')
               (fst (snd (setup_scan Map.empty None (example_data 1) ''s1'' ''t0'' ''t0'')))
               [ControlScan \<lparr>action = ''jump'', index = Some (JFloat (1 / 2))\<rparr> ''t1'',
                ControlScan \<lparr>action = ''next'', index = None\<rparr> ''t2''])
            (Some ''s1'') = Some s' \<and>
      0 \<le> py_val (current_index s') \<and>
      py_val (current_index s') \<le> of_int (int (length (grid_points s')) - 1))"
proof -
  define G where "G = calculate_scan_grid 0 0 1 18"
  define s0 where "s0 = \<lparr> session_id = ''s1'', center_lat = 0, center_lon = 0, radius_miles = 1,
       zoom_level = 18, speed_seconds = 3, grid_points = G, current_index = PInt 0,
       is_running = False, is_paused = False, bookmarks = [], created_at = ''t0'',
       last_activity = ''t0'' \<rparr>"
  define reqs where "reqs = [ControlScan \<lparr>action = ''jump'', index = Some (JInt 9999)\<rparr> ''t1'',
                ControlScan \<lparr>action = ''jump'', index = Some JNull\<rparr> ''t2'',
                ControlScan \<lparr>action = ''next'', index = None\<rparr> ''t3'']"
  define reqs2 where "reqs2 = [ControlScan \<lparr>action = ''jump'', index = Some (JFloat (1 / 2))\<rparr> ''t1'',
                ControlScan \<lparr>action = ''next'', index = None\<rparr> ''t2'']"
  have e: "setup_scan Map.empty None (example_data 1) ''s1'' ''t0'' ''t0'' =
      (SetupSuccess ''s1'' (int (length G)) (of_int (int (length G)) * 3 / 60),
       [''s1'' \<mapsto> s0], Some ''s1'')"
    by (simp add: setup_scan_def example_data_def Let_def G_def s0_def)
  have ne: "G \<noteq> []"
    using example_cells(1) unfolding G_def by auto
  then have n: "0 < int (length G)" by simp
  have u: "''s1'' \<noteq> []" by simp
  have ints: "\<forall>req\<in>set reqs. integer_request req"
    by (simp add: reqs_def)
  from cursor_never_completes [OF e u n, where reqs = reqs and req_note = None and bid = "''b1''" and ta = "''t4''" and tb = "''t5''"] ints obtain s' c where
    s': "lookup_session (handle_requests (Some ''s1'') [''s1'' \<mapsto> s0] reqs) (Some ''s1'') = Some s'"
      "int (length (grid_points s')) = int (length G)"
      "current_index s' = PInt c"
    by blast
  from cursor_never_completes [OF e u n, where reqs = reqs and req_note = None and bid = "''b1''" and ta = "''t4''" and tb = "''t5''"] s'(1,3)
  have c: "0 \<le> c" "c \<le> int (length (grid_points s')) - 1"
    by auto
  have g: "grid_points s' = G"
    using s'(1) ne
    by (auto simp: reqs_def handle_requests_def control_scan_def lookup_session_def
        apply_action_def jump_index_def s0_def split: sum.splits)
  from cursor_never_completes [OF e u n, where reqs = reqs2 and req_note = None and bid = "''b1''" and ta = "''t4''" and tb = "''t5''"] obtain s2 where
    s2: "lookup_session (handle_requests (Some ''s1'') [''s1'' \<mapsto> s0] reqs2) (Some ''s1'') = Some s2"
      "0 \<le> py_val (current_index s2)"
      "py_val (current_index s2) \<le> of_int (int (length (grid_points s2)) - 1)"
    by blast
  have A: "\<exists>s' c. lookup_session (handle_requests (Some ''s1'') [''s1'' \<mapsto> s0] reqs) (Some ''s1'')
        = Some s' \<and> grid_points s' = G \<and> current_index s' = PInt c \<and> 0 \<le> c \<and>
      c \<le> int (length (grid_points s')) - 1 \<and> c \<noteq> int (length (grid_points s'))"
    using s' c g by (intro exI [of _ s'] exI [of _ c]) simp
  have B: "\<exists>s'. lookup_session (handle_requests (Some ''s1'') [''s1'' \<mapsto> s0] reqs2) (Some ''s1'')
        = Some s' \<and> 0 \<le> py_val (current_index s') \<and>
      py_val (current_index s') \<le> of_int (int (length (grid_points s')) - 1)"
    using s2 by blast
  show ?thesis
    using A B n u
    unfolding G_def [symmetric] reqs_def [symmetric] reqs2_def [symmetric] e by simp
qed

end
